theory Spec2Isabelle
  imports Complex_Main "HOL-Library.Word"
begin

unbundle bit_operations_syntax

section \<open>Bytes, hexadecimal strings and big integers\<close>

text \<open>
  The miner works on Go byte slices, hexadecimal strings and \<open>math/big\<close> integers.
  A byte is an 8-bit word, a nonce a 32-bit word, a Go \<open>int\<close> or \<open>uint\<close> a 64-bit
  word where its wrap-around is visible, and a nonnegative \<open>big.Int\<close> a natural number.
  A finite \<open>float64\<close> is the rational number it denotes.
\<close>

type_synonym byte = "8 word"
type_synonym u32 = "32 word"
type_synonym u64 = "64 word"
type_synonym float64 = rat

text \<open>
  What can stop a goroutine instead of letting the call return: a runtime panic, or a
  channel send that no receiver will ever take.
\<close>

datatype fault =
  MakesliceLenOutOfRange | MakesliceCapOutOfRange | CloseOfClosedChannel | SendBlocks

text \<open>\<open>encoding/hex\<close>: the value of one hexadecimal digit, either case.\<close>

definition fromHexChar :: "char \<Rightarrow> nat option" where
  "fromHexChar c =
     (let n = (of_char c :: nat) in
      if 48 \<le> n \<and> n \<le> 57 then Some (n - 48)
      else if 97 \<le> n \<and> n \<le> 102 then Some (n - 97 + 10)
      else if 65 \<le> n \<and> n \<le> 70 then Some (n - 65 + 10)
      else None)"

text \<open>
  \<open>hex.DecodeString\<close> returns the bytes decoded before the first malformed pair (or before
  a trailing odd digit) together with an error. Every call site of the miner discards the
  error (\<open>x, _ := hex.DecodeString(s)\<close>), so the model returns the bytes only.
\<close>

fun DecodeString :: "string \<Rightarrow> byte list" where
  "DecodeString (p # q # rest) =
     (case fromHexChar p of
        None \<Rightarrow> []
      | Some a \<Rightarrow>
          (case fromHexChar q of
             None \<Rightarrow> []
           | Some b \<Rightarrow> word_of_nat (a * 16 + b) # DecodeString rest))"
| "DecodeString _ = []"

definition hexDigit :: "nat \<Rightarrow> char" where
  "hexDigit n = ''0123456789abcdef'' ! (n mod 16)"

text \<open>\<open>hex.EncodeToString\<close>: two lowercase digits for each byte.\<close>

fun EncodeToString :: "byte list \<Rightarrow> string" where
  "EncodeToString [] = []"
| "EncodeToString (b # bs) =
     hexDigit (unat b div 16) # hexDigit (unat b mod 16) # EncodeToString bs"

text \<open>\<open>fmt.Sprintf("%08x", nonce)\<close> for a 32-bit nonce: eight lowercase digits.\<close>

definition Sprintf_08x :: "u32 \<Rightarrow> string" where
  "Sprintf_08x n = map (\<lambda>i. hexDigit (unat n div 16 ^ i)) [7, 6, 5, 4, 3, 2, 1, 0]"

text \<open>\<open>new(big.Int).SetBytes\<close>: the bytes read as a big-endian unsigned integer.\<close>

definition SetBytes :: "byte list \<Rightarrow> nat" where
  "SetBytes bs = foldl (\<lambda>acc b. acc * 256 + unat b) 0 bs"

text \<open>
  \<open>reverseBytes\<close> allocates a zeroed slice of the same length and stores byte \<open>i\<close> of the
  input at index \<open>len - 1 - i\<close>.
\<close>

fun reverseBytes_loop :: "nat \<Rightarrow> nat \<Rightarrow> byte list \<Rightarrow> byte list \<Rightarrow> byte list" where
  "reverseBytes_loop n i [] result = result"
| "reverseBytes_loop n i (b # bs) result = reverseBytes_loop n (Suc i) bs (result[n - 1 - i := b])"

definition reverseBytes :: "byte list \<Rightarrow> byte list" where
  "reverseBytes data_in = reverseBytes_loop (length data_in) 0 data_in (replicate (length data_in) 0)"

text \<open>
  \<open>copy(dst[lo:hi], src)\<close> on a slice \<open>dst\<close> with \<open>hi \<le> len(dst)\<close>: the first
  \<open>min (hi - lo) (len src)\<close> bytes of \<open>src\<close> overwrite \<open>dst\<close> from \<open>lo\<close> on; the rest
  of \<open>dst\<close> keeps its content.
\<close>

definition copy_into :: "byte list \<Rightarrow> nat \<Rightarrow> nat \<Rightarrow> byte list \<Rightarrow> byte list" where
  "copy_into dst lo hi src =
     (let n = min (hi - lo) (length src)
      in take lo dst @ take n src @ drop (lo + n) dst)"

text \<open>\<open>binary.LittleEndian.PutUint32(b[off:off+4], v)\<close>.\<close>

definition PutUint32 :: "byte list \<Rightarrow> nat \<Rightarrow> u32 \<Rightarrow> byte list" where
  "PutUint32 b off v =
     b[off := ucast v, off + 1 := ucast (drop_bit 8 v),
       off + 2 := ucast (drop_bit 16 v), off + 3 := ucast (drop_bit 24 v)]"

text \<open>The bytes \<open>b[lo:hi]\<close> of a slice.\<close>

definition slice :: "nat \<Rightarrow> nat \<Rightarrow> 'a list \<Rightarrow> 'a list" where
  "slice lo hi b = take (hi - lo) (drop lo b)"

section \<open>SHA-256\<close>

text \<open>
  \<open>crypto/sha256.Sum256\<close> of the Go standard library, written out after FIPS 180-4:
  padding to a multiple of 64 bytes, the message schedule of 64 words, 64 rounds on eight
  32-bit working variables for each block, and the digest as the eight state words in
  big-endian order.
\<close>

definition rotr :: "nat \<Rightarrow> u32 \<Rightarrow> u32" where
  "rotr n x = (drop_bit n x) OR (push_bit (32 - n) x)"

text \<open>The round constants, eight rounds to a row.\<close>

definition sha_K0 :: "u32 list" where
  "sha_K0 =
     [0x428a2f98, 0x71374491, 0xb5c0fbcf, 0xe9b5dba5,
      0x3956c25b, 0x59f111f1, 0x923f82a4, 0xab1c5ed5]"

definition sha_K1 :: "u32 list" where
  "sha_K1 =
     [0xd807aa98, 0x12835b01, 0x243185be, 0x550c7dc3,
      0x72be5d74, 0x80deb1fe, 0x9bdc06a7, 0xc19bf174]"

definition sha_K2 :: "u32 list" where
  "sha_K2 =
     [0xe49b69c1, 0xefbe4786, 0x0fc19dc6, 0x240ca1cc,
      0x2de92c6f, 0x4a7484aa, 0x5cb0a9dc, 0x76f988da]"

definition sha_K3 :: "u32 list" where
  "sha_K3 =
     [0x983e5152, 0xa831c66d, 0xb00327c8, 0xbf597fc7,
      0xc6e00bf3, 0xd5a79147, 0x06ca6351, 0x14292967]"

definition sha_K4 :: "u32 list" where
  "sha_K4 =
     [0x27b70a85, 0x2e1b2138, 0x4d2c6dfc, 0x53380d13,
      0x650a7354, 0x766a0abb, 0x81c2c92e, 0x92722c85]"

definition sha_K5 :: "u32 list" where
  "sha_K5 =
     [0xa2bfe8a1, 0xa81a664b, 0xc24b8b70, 0xc76c51a3,
      0xd192e819, 0xd6990624, 0xf40e3585, 0x106aa070]"

definition sha_K6 :: "u32 list" where
  "sha_K6 =
     [0x19a4c116, 0x1e376c08, 0x2748774c, 0x34b0bcb5,
      0x391c0cb3, 0x4ed8aa4a, 0x5b9cca4f, 0x682e6ff3]"

definition sha_K7 :: "u32 list" where
  "sha_K7 =
     [0x748f82ee, 0x78a5636f, 0x84c87814, 0x8cc70208,
      0x90befffa, 0xa4506ceb, 0xbef9a3f7, 0xc67178f2]"

definition sha_K :: "u32 list" where
  "sha_K = sha_K0 @ sha_K1 @ sha_K2 @ sha_K3 @ sha_K4 @ sha_K5 @ sha_K6 @ sha_K7"

type_synonym sha_state = "u32 \<times> u32 \<times> u32 \<times> u32 \<times> u32 \<times> u32 \<times> u32 \<times> u32"

definition sha_init :: sha_state where
  "sha_init = (0x6a09e667, 0xbb67ae85, 0x3c6ef372, 0xa54ff53a,
               0x510e527f, 0x9b05688c, 0x1f83d9ab, 0x5be0cd19)"

definition be32 :: "byte \<Rightarrow> byte \<Rightarrow> byte \<Rightarrow> byte \<Rightarrow> u32" where
  "be32 a b c d = push_bit 24 (ucast a) OR push_bit 16 (ucast b) OR push_bit 8 (ucast c) OR ucast d"

fun words_be :: "byte list \<Rightarrow> u32 list" where
  "words_be (a # b # c # d # rest) = be32 a b c d # words_be rest"
| "words_be _ = []"

definition bytes_be32 :: "u32 \<Rightarrow> byte list" where
  "bytes_be32 w = [ucast (drop_bit 24 w), ucast (drop_bit 16 w), ucast (drop_bit 8 w), ucast w]"

definition bytes_be64 :: "u64 \<Rightarrow> byte list" where
  "bytes_be64 w =
     [ucast (drop_bit 56 w), ucast (drop_bit 48 w), ucast (drop_bit 40 w), ucast (drop_bit 32 w),
      ucast (drop_bit 24 w), ucast (drop_bit 16 w), ucast (drop_bit 8 w), ucast w]"

definition sha_pad :: "byte list \<Rightarrow> byte list" where
  "sha_pad m = m @ [0x80] @ replicate ((119 - length m mod 64) mod 64) 0
                 @ bytes_be64 (word_of_nat (8 * length m))"

text \<open>The schedule is grown newest word first: \<open>ws = [w(t-1), w(t-2), ...]\<close>.\<close>

fun sha_schedule :: "nat \<Rightarrow> u32 list \<Rightarrow> u32 list" where
  "sha_schedule 0 ws = ws"
| "sha_schedule (Suc n) ws =
     (let w2 = ws ! 1; w7 = ws ! 6; w15 = ws ! 14; w16 = ws ! 15;
          s0 = rotr 7 w15 XOR rotr 18 w15 XOR drop_bit 3 w15;
          s1 = rotr 17 w2 XOR rotr 19 w2 XOR drop_bit 10 w2
      in sha_schedule n ((s1 + w7 + s0 + w16) # ws))"

fun sha_round :: "sha_state \<Rightarrow> u32 \<times> u32 \<Rightarrow> sha_state" where
  "sha_round (a, b, c, d, e, f, g, h) (k, w) =
     (let t1 = h + (rotr 6 e XOR rotr 11 e XOR rotr 25 e) + ((e AND f) XOR (NOT e AND g)) + k + w;
          t2 = (rotr 2 a XOR rotr 13 a XOR rotr 22 a) + ((a AND b) XOR (a AND c) XOR (b AND c))
      in (t1 + t2, a, b, c, d + t1, e, f, g))"

fun sha_add :: "sha_state \<Rightarrow> sha_state \<Rightarrow> sha_state" where
  "sha_add (a, b, c, d, e, f, g, h) (a', b', c', d', e', f', g', h') =
     (a + a', b + b', c + c', d + d', e + e', f + f', g + g', h + h')"

definition sha_block :: "sha_state \<Rightarrow> byte list \<Rightarrow> sha_state" where
  "sha_block s blk =
     (let ws = rev (sha_schedule 48 (rev (words_be blk)))
      in sha_add s (foldl sha_round s (zip sha_K ws)))"

function sha_blocks :: "sha_state \<Rightarrow> byte list \<Rightarrow> sha_state" where
  "sha_blocks s bs =
     (if length bs < 64 then s else sha_blocks (sha_block s (take 64 bs)) (drop 64 bs))"
  by pat_completeness auto
termination
  by (relation "measure (\<lambda>(s, bs). length bs)") auto

declare sha_blocks.simps [simp del]

fun sha_out :: "sha_state \<Rightarrow> byte list" where
  "sha_out (a, b, c, d, e, f, g, h) =
     bytes_be32 a @ bytes_be32 b @ bytes_be32 c @ bytes_be32 d @
     bytes_be32 e @ bytes_be32 f @ bytes_be32 g @ bytes_be32 h"

definition Sum256 :: "byte list \<Rightarrow> byte list" where
  "Sum256 m = sha_out (sha_blocks sha_init (sha_pad m))"

text \<open>\<open>doubleSHA256\<close>: \<open>SHA256(SHA256(data))\<close>.\<close>

definition doubleSHA256 :: "byte list \<Rightarrow> byte list" where
  "doubleSHA256 data_in = (let first = Sum256 data_in; second = Sum256 first in second)"

section \<open>Compact targets\<close>

text \<open>
  \<open>runtime.maxAlloc\<close> on 64-bit Linux: \<open>make\<close> panics with
  \<open>makeslice: len out of range\<close> when asked for more bytes than this.
\<close>

definition maxAlloc :: nat where
  "maxAlloc = 2 ^ 48"

text \<open>
  \<open>new(big.Int).Lsh(x, n)\<close> for \<open>x \<ge> 0\<close> and a \<open>uint\<close> shift \<open>n\<close>. Zero shifts to zero
  without allocating. Otherwise the result needs \<open>n div 64\<close> more 64-bit words than \<open>x\<close>
  has (\<open>nat_words x\<close>), plus one; \<open>make\<close> is asked for that length and four words of
  capacity more, and panics when either is more than it accepts. A shift that passes and still asks
  for more memory than the machine has is not modelled: \<open>calculateTarget\<close> shifts by at
  most 2016 bits or by more than \<open>2 ^ 63\<close>.
\<close>

fun bitlen :: "nat \<Rightarrow> nat" where
  "bitlen n = (if n = 0 then 0 else Suc (bitlen (n div 2)))"

declare bitlen.simps [simp del]

definition nat_words :: "nat \<Rightarrow> nat" where
  "nat_words x = (bitlen x + 63) div 64"

definition Lsh :: "nat \<Rightarrow> u64 \<Rightarrow> fault + nat" where
  "Lsh x n =
     (if x = 0 then Inr 0
      else
        let words = nat_words x + unat n div 64 + 1 in
        if maxAlloc < 8 * words then Inl MakesliceLenOutOfRange
        else if maxAlloc < 8 * (words + 4) then Inl MakesliceCapOutOfRange
        else Inr (x * 2 ^ unat n))"

text \<open>
  \<open>calculateTarget\<close>: the exponent is \<open>int(nbitsBytes[0])\<close>, the coefficient the next three
  bytes, and the shift count is \<open>uint(8*(exp-3))\<close>, a conversion of a signed 64-bit value
  to an unsigned one, which wraps around for \<open>exp < 3\<close>.
\<close>

definition calculateTarget :: "string \<Rightarrow> fault + nat" where
  "calculateTarget nbits =
     (let nbitsBytes = DecodeString nbits in
      if length nbitsBytes \<noteq> 4 then Inr 0
      else
        let exp = (ucast (nbitsBytes ! 0) :: u64);
            coeff = SetBytes (slice 1 4 nbitsBytes)
        in Lsh coeff (8 * (exp - 3)))"

text \<open>The difficulty-1 target \<open>0x00000000FFFF0000...0\<close> (64 hexadecimal digits).\<close>

definition difficulty1Target :: nat where
  "difficulty1Target = 0xFFFF * 2 ^ 208"

section \<open>Jobs and the search for a nonce\<close>

text \<open>A mining job as the pool sends it (\<open>stratum.Job\<close>); every field but the last is text.\<close>

record Job =
  ID :: string
  PrevHash :: string
  Coinbase1 :: string
  Coinbase2 :: string
  MerkleBranch :: "string list"
  Version :: string
  NBits :: string
  NTime :: string
  CleanJobs :: bool

text \<open>
  \<open>diff.Int64()\<close> of a nonnegative \<open>big.Int\<close>: its low 64 bits read as a signed value.
\<close>

definition Int64 :: "nat \<Rightarrow> int" where
  "Int64 x = sint (word_of_nat x :: u64)"

text \<open>
  \<open>float64(i)\<close> for an \<open>int64\<close>: the nearest value with a 53-bit significand, ties to
  the even significand; \<open>round53\<close> does so on the absolute value. The result is again an
  integer.
\<close>

definition round53 :: "nat \<Rightarrow> nat" where
  "round53 m =
     (let e = bitlen m - 53;
          q = m div 2 ^ e;
          r = m mod 2 ^ e
      in if 2 ^ e < 2 * r \<or> (2 * r = 2 ^ e \<and> odd q) then (q + 1) * 2 ^ e else q * 2 ^ e)"

definition float64_of_int64 :: "int \<Rightarrow> float64" where
  "float64_of_int64 i = of_int (sgn i * int (round53 (nat \<bar>i\<bar>)))"

text \<open>
  The header built by \<open>mineBatch\<close> before its loop: the coinbase, its double hash folded
  with the Merkle branches, and the 80 zeroed bytes that receive version, previous hash,
  reversed Merkle root, time and bits.
\<close>

definition coinbaseBytes :: "Job \<Rightarrow> string \<Rightarrow> string \<Rightarrow> byte list" where
  "coinbaseBytes job extranonce1 extranonce2 =
     DecodeString (Coinbase1 job @ extranonce1 @ extranonce2 @ Coinbase2 job)"

definition merkleRoot :: "Job \<Rightarrow> string \<Rightarrow> string \<Rightarrow> byte list" where
  "merkleRoot job extranonce1 extranonce2 =
     foldl (\<lambda>root branch. doubleSHA256 (root @ DecodeString branch))
       (doubleSHA256 (coinbaseBytes job extranonce1 extranonce2))
       (MerkleBranch job)"

definition buildHeader :: "Job \<Rightarrow> string \<Rightarrow> string \<Rightarrow> byte list" where
  "buildHeader job extranonce1 extranonce2 =
     (let merkleRootHex = reverseBytes (merkleRoot job extranonce1 extranonce2);
          version = DecodeString (Version job);
          prevHash = DecodeString (PrevHash job);
          ntime = DecodeString (NTime job);
          nbits = DecodeString (NBits job);
          header = replicate 80 0;
          header = copy_into header 0 4 version;
          header = copy_into header 4 36 prevHash;
          header = copy_into header 36 68 merkleRootHex;
          header = copy_into header 68 72 ntime;
          header = copy_into header 72 76 nbits
      in header)"

text \<open>The integer compared with the target: the digest of the header, reversed, big-endian.\<close>

definition hashInt :: "byte list \<Rightarrow> nat" where
  "hashInt header = SetBytes (reverseBytes (doubleSHA256 header))"

text \<open>
  The difficulty bookkeeping of one loop iteration: for a positive hash the quotient
  \<open>difficulty1Target / hashInt\<close> goes through \<open>Int64()\<close> and \<open>float64\<close>, and replaces
  the best value so far only when it is greater.
\<close>

definition trackBest :: "nat \<Rightarrow> u32 \<Rightarrow> float64 \<times> string \<Rightarrow> float64 \<times> string" where
  "trackBest h nonce best =
     (if 0 < h then
        let diff = difficulty1Target div h;
            diffFloat = float64_of_int64 (Int64 diff)
        in if fst best < diffFloat then (diffFloat, Sprintf_08x nonce) else best
      else best)"

text \<open>
  The loop of \<open>mineBatch\<close> over the nonces drawn from \<open>rand.Uint32()\<close>. The result is
  \<open>(found, nonce, bestDifficulty)\<close> and the number of hashes added to \<open>hashCount\<close>.
\<close>

fun mineBatch_loop ::
  "byte list \<Rightarrow> nat \<Rightarrow> u32 list \<Rightarrow> float64 \<times> string \<Rightarrow> nat \<Rightarrow> (bool \<times> string \<times> float64) \<times> nat" where
  "mineBatch_loop header target [] best hashes = ((False, snd best, fst best), hashes)"
| "mineBatch_loop header target (nonce # rest) best hashes =
     (let h = hashInt (PutUint32 header 76 nonce);
          best' = trackBest h nonce best
      in if h \<le> target then ((True, Sprintf_08x nonce, fst best'), Suc hashes)
         else mineBatch_loop header target rest best' (Suc hashes))"

text \<open>
  \<open>mineBatch\<close>. The random source is a parameter: \<open>rnd i\<close> is the \<open>i\<close>-th value that
  \<open>rand.Uint32()\<close> returns during the batch. A negative \<open>batchSize\<close> runs no iteration.
\<close>

definition mineBatch ::
  "Job \<Rightarrow> string \<Rightarrow> string \<Rightarrow> int \<Rightarrow> (nat \<Rightarrow> u32) \<Rightarrow> fault + ((bool \<times> string \<times> float64) \<times> nat)" where
  "mineBatch job extranonce1 extranonce2 batchSize rnd =
     (case calculateTarget (NBits job) of
        Inl f \<Rightarrow> Inl f
      | Inr target \<Rightarrow>
          Inr (mineBatch_loop (buildHeader job extranonce1 extranonce2) target
                 (map rnd [0..<nat batchSize]) (0, '''') 0))"

text \<open>
  \<open>generateExtranonce2\<close>: \<open>size\<close> random bytes (\<open>rnd i\<close> is the \<open>i\<close>-th), in hex.
  \<open>make([]byte, size)\<close> panics on a negative size, and the \<open>2 * size\<close> bytes that
  \<open>hex.EncodeToString\<close> allocates must not exceed what \<open>make\<close> accepts.
\<close>

definition generateExtranonce2 :: "int \<Rightarrow> (nat \<Rightarrow> byte) \<Rightarrow> fault + string" where
  "generateExtranonce2 size_in rnd =
     (if size_in < 0 \<or> int maxAlloc < 2 * size_in then Inl MakesliceLenOutOfRange
      else Inr (EncodeToString (map rnd [0..<nat size_in])))"

text \<open>
  What \<open>copy\<close> leaves in a zeroed slot of \<open>n\<close> bytes: the source cut to \<open>n\<close> bytes, or
  followed by the zeros it did not reach. A source of exactly \<open>n\<close> bytes fills the slot.
\<close>

definition fit :: "nat \<Rightarrow> byte list \<Rightarrow> byte list" where
  "fit n src = take n src @ replicate (n - length src) 0"

text \<open>A job with an empty Merkle branch, for the examples.\<close>

definition example_job :: "string \<Rightarrow> string \<Rightarrow> Job" where
  "example_job job_id nbits =
     \<lparr>ID = job_id,
      PrevHash = ''00000000000000000002a7c4c1e48d76c5a37902165a270156b7a8d72728a054'',
      Coinbase1 = ''01000000010000000000000000000000000000000000000000000000000000000000000000ffffffff'',
      Coinbase2 = ''ffffffff0100f2052a010000001976a914000000000000000000000000000000000000000088ac00000000'',
      MerkleBranch = [], Version = ''20000000'', NBits = nbits, NTime = ''665f1a2b'',
      CleanJobs = False\<rparr>"

section \<open>The worker\<close>

text \<open>
  A buffered Go channel in a setting where no receiver is parked on it: a capacity and the
  queued values, oldest first. A non-blocking send (a \<open>select\<close> case) succeeds when there is
  room, a non-blocking receive when a value is queued.
\<close>

record 'a chan =
  cap :: nat
  buf :: "'a list"

definition try_send :: "'a chan \<Rightarrow> 'a \<Rightarrow> 'a chan option" where
  "try_send ch v = (if length (buf ch) < cap ch then Some (ch\<lparr>buf := buf ch @ [v]\<rparr>) else None)"

definition try_recv :: "'a chan \<Rightarrow> ('a \<times> 'a chan) option" where
  "try_recv ch = (case buf ch of [] \<Rightarrow> None | v # rest \<Rightarrow> Some (v, ch\<lparr>buf := rest\<rparr>))"

text \<open>What \<open>onShareFound\<close> is called with.\<close>

record Share =
  share_workerID :: int
  share_jobID :: string
  share_extranonce2 :: string
  share_ntime :: string
  share_nonce :: string
  share_difficulty :: float64

text \<open>
  The state of a \<open>Worker\<close>. The mutex and the start time are left out. The \<open>shutdown\<close>
  channel never carries a value, so all that matters is whether it has been closed.
  \<open>onShareFound\<close> tells whether the callback is set, \<open>shares\<close> lists the calls made to
  it, and \<open>goroutines\<close> counts the \<open>mineLoop\<close> goroutines that have not returned.
\<close>

record Worker =
  WorkerID :: int
  Name :: string
  running :: bool
  hashCount :: u64
  job :: "Job option"
  extranonce1 :: string
  extranonce2 :: string
  cpuPercent :: int
  shutdown_closed :: bool
  jobChannel :: "Job chan"
  onShareFound :: bool
  shares :: "Share list"
  goroutines :: nat

definition NewWorker :: "int \<Rightarrow> string \<Rightarrow> int \<Rightarrow> Worker" where
  "NewWorker id_in name cpu =
     \<lparr>WorkerID = id_in, Name = name, running = False, hashCount = 0, job = None,
      extranonce1 = '''', extranonce2 = '''', cpuPercent = cpu, shutdown_closed = False,
      jobChannel = \<lparr>cap = 10, buf = []\<rparr>, onShareFound = False, shares = [], goroutines = 0\<rparr>"

definition SetShareCallback :: "Worker \<Rightarrow> bool \<Rightarrow> Worker" where
  "SetShareCallback w cb = w\<lparr>onShareFound := cb\<rparr>"

definition SetCPUPercent :: "Worker \<Rightarrow> int \<Rightarrow> Worker" where
  "SetCPUPercent w percent = w\<lparr>cpuPercent := percent\<rparr>"

text \<open>\<open>Start\<close>: nothing when already running; otherwise a new \<open>mineLoop\<close> goroutine.\<close>

definition Start :: "Worker \<Rightarrow> string \<Rightarrow> int \<Rightarrow> (nat \<Rightarrow> byte) \<Rightarrow> fault + Worker" where
  "Start w e1 extranonce2Size rnd =
     (if running w then Inr w
      else case generateExtranonce2 extranonce2Size rnd of
             Inl f \<Rightarrow> Inl f
           | Inr e2 \<Rightarrow>
               Inr (w\<lparr>running := True, extranonce1 := e1, extranonce2 := e2,
                      goroutines := Suc (goroutines w)\<rparr>))"

text \<open>
  \<open>Stop\<close>: nothing when not running; otherwise \<open>close(w.shutdown)\<close>, which panics on a
  channel that is closed already.
\<close>

definition Stop :: "Worker \<Rightarrow> fault + Worker" where
  "Stop w =
     (if \<not> running w then Inr w
      else if shutdown_closed w then Inl CloseOfClosedChannel
      else Inr (w\<lparr>running := False, shutdown_closed := True\<rparr>))"

text \<open>
  \<open>UpdateJob\<close>: a non-blocking send; when it cannot proceed, a non-blocking receive that
  drops the oldest queued job, then a blocking send.
\<close>

definition UpdateJob :: "Worker \<Rightarrow> Job \<Rightarrow> fault + Worker" where
  "UpdateJob w j =
     (case try_send (jobChannel w) j of
        Some ch \<Rightarrow> Inr (w\<lparr>jobChannel := ch\<rparr>)
      | None \<Rightarrow>
          (let ch1 = (case try_recv (jobChannel w) of Some (old, ch) \<Rightarrow> ch | None \<Rightarrow> jobChannel w)
           in case try_send ch1 j of
                Some ch2 \<Rightarrow> Inr (w\<lparr>jobChannel := ch2\<rparr>)
              | None \<Rightarrow> Inl SendBlocks))"

text \<open>
  One pass through the \<open>select\<close> of \<open>mineLoop\<close>, taken as a single step. When both the
  closed \<open>shutdown\<close> channel and a queued job are ready the Go runtime picks one of the two;
  \<open>pick\<close> is that choice. The \<open>default\<close> branch runs only when neither is ready.
\<close>

datatype select_pick = PickShutdown | PickJob

datatype loop_result = Exited | NewJob | Slept | Batch "bool \<times> string \<times> float64"

definition mineLoop_iter ::
  "select_pick \<Rightarrow> (nat \<Rightarrow> byte) \<Rightarrow> (nat \<Rightarrow> u32) \<Rightarrow> Worker \<Rightarrow> fault + (loop_result \<times> Worker)" where
  "mineLoop_iter pick rnd_bytes rnd_nonces w =
     (if shutdown_closed w \<and> (buf (jobChannel w) = [] \<or> pick = PickShutdown)
      then Inr (Exited, w\<lparr>goroutines := goroutines w - 1\<rparr>)
      else case try_recv (jobChannel w) of
        Some (j, ch) \<Rightarrow>
          (case generateExtranonce2 (int (length (extranonce2 w)) div 2) rnd_bytes of
             Inl f \<Rightarrow> Inl f
           | Inr e2 \<Rightarrow> Inr (NewJob, w\<lparr>jobChannel := ch, job := Some j, extranonce2 := e2\<rparr>))
      | None \<Rightarrow>
          (case job w of
             None \<Rightarrow> Inr (Slept, w)
           | Some j \<Rightarrow>
               (case mineBatch j (extranonce1 w) (extranonce2 w) 1000 rnd_nonces of
                  Inl f \<Rightarrow> Inl f
                | Inr ((found, nonce, difficulty), hashes) \<Rightarrow>
                    Inr (Batch (found, nonce, difficulty),
                         w\<lparr>hashCount := hashCount w + word_of_nat hashes,
                           shares :=
                             (if found \<and> onShareFound w
                              then shares w @
                                [\<lparr>share_workerID = WorkerID w, share_jobID = ID j,
                                  share_extranonce2 = extranonce2 w, share_ntime = NTime j,
                                  share_nonce = nonce, share_difficulty = difficulty\<rparr>]
                              else shares w)\<rparr>))))"

text \<open>
  What can happen to a worker: a call of one of its methods, or one iteration of a live
  \<open>mineLoop\<close> goroutine. A run stops at the first fault.
\<close>

datatype worker_call =
    CallStart string int "nat \<Rightarrow> byte"
  | CallStop
  | CallUpdateJob Job
  | CallSetCPUPercent int
  | CallSetShareCallback bool
  | LoopIteration select_pick "nat \<Rightarrow> byte" "nat \<Rightarrow> u32"

fun apply_call :: "Worker \<Rightarrow> worker_call \<Rightarrow> fault + Worker" where
  "apply_call w (CallStart e1 n rnd) = Start w e1 n rnd"
| "apply_call w CallStop = Stop w"
| "apply_call w (CallUpdateJob j) = UpdateJob w j"
| "apply_call w (CallSetCPUPercent p) = Inr (SetCPUPercent w p)"
| "apply_call w (CallSetShareCallback cb) = Inr (SetShareCallback w cb)"
| "apply_call w (LoopIteration pick rb rn) =
     (if goroutines w = 0 then Inr w
      else case mineLoop_iter pick rb rn w of Inl f \<Rightarrow> Inl f | Inr (r, w') \<Rightarrow> Inr w')"

fun run_calls :: "Worker \<Rightarrow> worker_call list \<Rightarrow> fault + Worker" where
  "run_calls w [] = Inr w"
| "run_calls w (c # cs) = (case apply_call w c of Inl f \<Rightarrow> Inl f | Inr w' \<Rightarrow> run_calls w' cs)"

text \<open>
  A worker in the middle of a session, for the examples: started with extranonce1
  \<open>a1b2c3d4\<close> and four bytes of extranonce2, the share callback set, and a job taken from
  the mailbox whose \<open>nbits\<close> decode to a target above every 256-bit hash.
\<close>

definition example_worker :: Worker where
  "example_worker =
     (NewWorker 1 ''Worker A'' 100)
       \<lparr>running := True, job := Some (example_job ''1'' ''21ffffff''),
        extranonce1 := ''a1b2c3d4'', extranonce2 := ''00000000'', onShareFound := True,
        goroutines := 1\<rparr>"

text \<open>A thousand jobs for the mailbox: 999 times job \<open>a\<close>, then job \<open>b\<close>.\<close>

definition example_jobs :: "Job list" where
  "example_jobs = replicate 999 (example_job ''a'' ''1d00ffff'') @ [example_job ''b'' ''1d00ffff'']"

text \<open>
  The invariant of a worker whose \<open>Start\<close> calls all ask for \<open>n\<close> bytes: unless it was
  never started, its extranonce2 has \<open>2 * n\<close> digits, and so has the extranonce2 of
  every share it has reported.
\<close>

definition e2_inv :: "int \<Rightarrow> Worker \<Rightarrow> bool" where
  "e2_inv n w \<longleftrightarrow>
     ((goroutines w = 0 \<and> \<not> running w \<and> shares w = []) \<or> length (extranonce2 w) = 2 * nat n) \<and>
     list_all (\<lambda>s. length (share_extranonce2 s) = 2 * nat n) (shares w)"

text \<open>A short session: the callback is set, the worker started, a job delivered, taken
  from the mailbox, and mined for one batch.\<close>

definition example_calls :: "worker_call list" where
  "example_calls = [CallSetShareCallback True, CallStart ''a1b2c3d4'' 4 (\<lambda>_. 0),
      CallUpdateJob (example_job ''1'' ''21ffffff''), LoopIteration PickJob (\<lambda>_. 0) (\<lambda>_. 0),
      LoopIteration PickJob (\<lambda>_. 0) (\<lambda>_. 0)]"

section \<open>The Stratum client\<close>

text \<open>
  A JSON value, as a raw message holds it and as \<open>encoding/json\<close> decodes it into an
  \<open>interface{}\<close>: \<open>nil\<close>, \<open>bool\<close>, \<open>float64\<close>, \<open>string\<close>, a slice or a map.
\<close>

datatype json = JNull | JBool bool | JNum float64 | JStr string | JArr "json list"
  | JObj "(string \<times> json) list"

record Request =
  req_id :: int
  req_method :: string
  req_params :: "json list"

datatype client_error = ErrDial | ErrNotConnected | ErrWrite

datatype client_event = EvConnected | EvJob Job

text \<open>
  The state of a \<open>Client\<close>. \<open>conn\<close> is \<open>None\<close> for \<open>nil\<close> and otherwise tells whether the
  connection is still open; \<open>wire\<close> lists the requests written to it, oldest first. The
  five callback fields tell whether a callback is set, and \<open>events\<close> lists the calls made
  to \<open>onConnected\<close> and \<open>onJobReceived\<close>. \<open>requestID\<close> is a Go \<open>int\<close>.
\<close>

record Client =
  conn :: "bool option"
  poolURL :: string
  poolPort :: int
  client_extranonce1 :: string
  extranonce2Size :: int
  subscribed :: bool
  authorized :: bool
  currentJob :: "Job option"
  onJobReceived :: bool
  onConnected :: bool
  requestID :: u64
  client_shutdown_closed :: bool
  client_running :: bool
  wire :: "Request list"
  events :: "client_event list"

definition NewClient :: "string \<Rightarrow> int \<Rightarrow> Client" where
  "NewClient url port =
     \<lparr>conn = None, poolURL = url, poolPort = port, client_extranonce1 = '''',
      extranonce2Size = 0, subscribed = False, authorized = False, currentJob = None,
      onJobReceived = False, onConnected = False, requestID = 0,
      client_shutdown_closed = False, client_running = False, wire = [], events = []\<rparr>"

definition SetJobCallback :: "Client \<Rightarrow> bool \<Rightarrow> Client" where
  "SetJobCallback c cb = c\<lparr>onJobReceived := cb\<rparr>"

text \<open>\<open>Connect\<close>; \<open>dial_ok\<close> tells whether the dial succeeds.\<close>

definition Connect :: "Client \<Rightarrow> bool \<Rightarrow> client_error option \<times> Client" where
  "Connect c dial_ok =
     (if \<not> dial_ok then (Some ErrDial, c)
      else (None, c\<lparr>conn := Some True, client_running := True, client_shutdown_closed := False,
                    events := (if onConnected c then events c @ [EvConnected] else events c)\<rparr>))"

definition nextID :: "Client \<Rightarrow> int \<times> Client" where
  "nextID c = (sint (requestID c + 1), c\<lparr>requestID := requestID c + 1\<rparr>)"

definition send :: "Client \<Rightarrow> Request \<Rightarrow> client_error option \<times> Client" where
  "send c req =
     (case conn c of
        None \<Rightarrow> (Some ErrNotConnected, c)
      | Some is_open \<Rightarrow>
          if is_open then (None, c\<lparr>wire := wire c @ [req]\<rparr>) else (Some ErrWrite, c))"

definition Subscribe :: "Client \<Rightarrow> client_error option \<times> Client" where
  "Subscribe c =
     (let (i, c1) = nextID c
      in send c1 \<lparr>req_id = i, req_method = ''mining.subscribe'', req_params = []\<rparr>)"

definition Authorize :: "Client \<Rightarrow> string \<Rightarrow> string \<Rightarrow> client_error option \<times> Client" where
  "Authorize c walletAddress password =
     (let password = (if password = '''' then ''x'' else password);
          (i, c1) = nextID c
      in send c1 \<lparr>req_id = i, req_method = ''mining.authorize'',
                   req_params = [JStr walletAddress, JStr password]\<rparr>)"

definition Submit ::
  "Client \<Rightarrow> string \<Rightarrow> string \<Rightarrow> string \<Rightarrow> string \<Rightarrow> string \<Rightarrow> client_error option \<times> Client" where
  "Submit c walletAddress jobID e2 ntime nonce =
     (let (i, c1) = nextID c
      in send c1 \<lparr>req_id = i, req_method = ''mining.submit'',
                   req_params = [JStr walletAddress, JStr jobID, JStr e2, JStr ntime, JStr nonce]\<rparr>)"

text \<open>\<open>Close\<close>: \<open>close(c.shutdown)\<close> panics on a channel that is closed already.\<close>

definition Close :: "Client \<Rightarrow> fault + Client" where
  "Close c =
     (if client_shutdown_closed c then Inl CloseOfClosedChannel
      else Inr (c\<lparr>client_running := False, client_shutdown_closed := True,
                  conn := (case conn c of None \<Rightarrow> None | Some is_open \<Rightarrow> Some False)\<rparr>))"

text \<open>
  A session of calls on one client. A call that returns an error leaves the session going,
  as the error is a value; the session stops at a panic.
\<close>

datatype client_call =
    CallConnect bool
  | CallSubscribe
  | CallAuthorize string string
  | CallSubmit string string string string string
  | CallClose

fun apply_client_call :: "Client \<Rightarrow> client_call \<Rightarrow> fault + Client" where
  "apply_client_call c (CallConnect ok) = Inr (snd (Connect c ok))"
| "apply_client_call c CallSubscribe = Inr (snd (Subscribe c))"
| "apply_client_call c (CallAuthorize w p) = Inr (snd (Authorize c w p))"
| "apply_client_call c (CallSubmit w j e t n) = Inr (snd (Submit c w j e t n))"
| "apply_client_call c CallClose = Close c"

fun run_client :: "Client \<Rightarrow> client_call list \<Rightarrow> fault + Client" where
  "run_client c [] = Inr c"
| "run_client c (x # xs) =
     (case apply_client_call c x of Inl f \<Rightarrow> Inl f | Inr c' \<Rightarrow> run_client c' xs)"

text \<open>
  \<open>json.Unmarshal\<close> of a raw message into a \<open>[]json.RawMessage\<close>, a \<open>string\<close>, a
  \<open>bool\<close> and a \<open>[]string\<close>. \<open>null\<close> decodes without error and leaves a string or a bool as
  it was; a value of the wrong kind is an error, which \<open>handleMiningNotify\<close> ignores for
  the fields, so the field keeps its zero value.
\<close>

definition unmarshal_raws :: "json \<Rightarrow> json list option" where
  "unmarshal_raws v = (case v of JArr xs \<Rightarrow> Some xs | JNull \<Rightarrow> Some [] | _ \<Rightarrow> None)"

definition unmarshal_string :: "json \<Rightarrow> string \<Rightarrow> string" where
  "unmarshal_string v old = (case v of JStr s \<Rightarrow> s | _ \<Rightarrow> old)"

definition unmarshal_bool :: "json \<Rightarrow> bool \<Rightarrow> bool" where
  "unmarshal_bool v old = (case v of JBool b \<Rightarrow> b | _ \<Rightarrow> old)"

definition unmarshal_strings :: "json \<Rightarrow> string list \<Rightarrow> string list" where
  "unmarshal_strings v old =
     (case v of JArr xs \<Rightarrow> map (\<lambda>x. unmarshal_string x '''') xs | JNull \<Rightarrow> [] | _ \<Rightarrow> old)"

definition handleMiningNotify :: "Client \<Rightarrow> json \<Rightarrow> Client" where
  "handleMiningNotify c params =
     (case unmarshal_raws params of
        None \<Rightarrow> c
      | Some p \<Rightarrow>
          if length p < 9 then c
          else
            let j = \<lparr>ID = unmarshal_string (p ! 0) '''',
                     PrevHash = unmarshal_string (p ! 1) '''',
                     Coinbase1 = unmarshal_string (p ! 2) '''',
                     Coinbase2 = unmarshal_string (p ! 3) '''',
                     MerkleBranch = unmarshal_strings (p ! 4) [],
                     Version = unmarshal_string (p ! 5) '''',
                     NBits = unmarshal_string (p ! 6) '''',
                     NTime = unmarshal_string (p ! 7) '''',
                     CleanJobs = unmarshal_bool (p ! 8) False\<rparr>
            in c\<lparr>currentJob := Some j,
                 events := (if onJobReceived c then events c @ [EvJob j] else events c)\<rparr>)"

definition handleNotification :: "Client \<Rightarrow> string \<Rightarrow> json \<Rightarrow> Client" where
  "handleNotification c method params =
     (if method = ''mining.notify'' then handleMiningNotify c params
      else if method = ''mining.set_difficulty'' then c
      else c)"

section \<open>The configuration\<close>

record Config =
  PoolURL :: string
  PoolPort :: int
  WalletAddress :: string
  MaxCPUPercent :: int
  NumWorkers :: int

definition DefaultConfig :: Config where
  "DefaultConfig =
     \<lparr>PoolURL = ''solo.ckpool.org'', PoolPort = 3333,
      WalletAddress = ''1FngDUBvDhPh9z3paCRHFEtHjnUMAFacn9'', MaxCPUPercent = 80, NumWorkers = 4\<rparr>"

text \<open>
  The conversion \<open>int(v)\<close> of a \<open>float64\<close>: the fraction is dropped; a value outside
  the 64-bit range gives the smallest \<open>int\<close>, as on amd64 (the language leaves it open).
\<close>

definition int_of_float64 :: "float64 \<Rightarrow> int" where
  "int_of_float64 v =
     (let t = (if 0 \<le> v then \<lfloor>v\<rfloor> else \<lceil>v\<rceil>)
      in if - (2 ^ 63) \<le> t \<and> t < 2 ^ 63 then t else - (2 ^ 63))"

text \<open>
  The type assertions \<open>updates[k].(string)\<close> and \<open>updates[k].(float64)\<close> on a
  \<open>map[string]interface{}\<close>: a missing key gives \<open>nil\<close>, which is of neither type.
\<close>

definition assert_string :: "json option \<Rightarrow> string option" where
  "assert_string x = (case x of Some (JStr s) \<Rightarrow> Some s | _ \<Rightarrow> None)"

definition assert_float64 :: "json option \<Rightarrow> float64 option" where
  "assert_float64 x = (case x of Some (JNum v) \<Rightarrow> Some v | _ \<Rightarrow> None)"

definition Update :: "Config \<Rightarrow> (string \<rightharpoonup> json) \<Rightarrow> Config" where
  "Update c updates =
     (let c = (case assert_string (updates ''pool_url'') of
                 Some v \<Rightarrow> c\<lparr>PoolURL := v\<rparr> | None \<Rightarrow> c);
          c = (case assert_float64 (updates ''pool_port'') of
                 Some v \<Rightarrow> c\<lparr>PoolPort := int_of_float64 v\<rparr> | None \<Rightarrow> c);
          c = (case assert_string (updates ''wallet_address'') of
                 Some v \<Rightarrow> c\<lparr>WalletAddress := v\<rparr> | None \<Rightarrow> c);
          c = (case assert_float64 (updates ''max_cpu_percent'') of
                 Some v \<Rightarrow> c\<lparr>MaxCPUPercent := int_of_float64 v\<rparr> | None \<Rightarrow> c);
          c = (case assert_float64 (updates ''num_workers'') of
                 Some v \<Rightarrow> c\<lparr>NumWorkers := int_of_float64 v\<rparr> | None \<Rightarrow> c)
      in c)"

text \<open>
  An update as the \<open>PUT /config\<close> handler may decode it: a new pool name, the port given
  as a string, a worker count, and a key the configuration does not know.
\<close>

definition example_updates :: "string \<rightharpoonup> json" where
  "example_updates =
     [''pool_url'' \<mapsto> JStr ''pool.example.org'', ''pool_port'' \<mapsto> JStr ''3334'',
      ''num_workers'' \<mapsto> JNum 8, ''theme'' \<mapsto> JStr ''dark'']"

section \<open>Properties\<close>

subsection \<open>Bytes and digests\<close>

lemma reverseBytes_loop_length [simp]:
  "length (reverseBytes_loop n i bs result) = length result"
  by (induction bs arbitrary: i result) simp_all

lemma reverseBytes_length [simp]: "length (reverseBytes d) = length d"
  by (simp add: reverseBytes_def)

lemma drop_list_update_here:
  "k < length xs \<Longrightarrow> drop k (xs[k := b]) = b # drop (Suc k) xs"
  by (simp add: upd_conv_take_nth_drop)

lemma reverseBytes_loop_rev:
  "i + length bs = n \<Longrightarrow> length result = n \<Longrightarrow>
   reverseBytes_loop n i bs result = rev bs @ drop (n - i) result"
proof (induction bs arbitrary: i result)
  case Nil
  then show ?case by simp
next
  case (Cons b bs)
  have k: "n - 1 - i < length result" using Cons.prems by simp
  have "reverseBytes_loop n (Suc i) bs (result[n - 1 - i := b])
          = rev bs @ drop (n - Suc i) (result[n - 1 - i := b])"
    using Cons.prems by (intro Cons.IH) simp_all
  also have "drop (n - Suc i) (result[n - 1 - i := b]) = b # drop (Suc (n - 1 - i)) result"
    using drop_list_update_here [OF k, of b] by simp
  also have "Suc (n - 1 - i) = n - i" using Cons.prems by simp
  finally show ?case by simp
qed

text \<open>The loop of \<open>reverseBytes\<close> computes the reversed list.\<close>

lemma reverseBytes_rev: "reverseBytes d = rev d"
  by (simp add: reverseBytes_def reverseBytes_loop_rev)

lemma sha_out_length: "length (sha_out s) = 32"
  by (cases s rule: sha_out.cases) (simp add: bytes_be32_def)

lemma Sum256_length [simp]: "length (Sum256 m) = 32"
  by (simp add: Sum256_def sha_out_length)

lemma doubleSHA256_length [simp]: "length (doubleSHA256 d) = 32"
  by (simp add: doubleSHA256_def)

text \<open>
  The model of \<open>Sum256\<close> on two messages: the SHA-256 digest of the empty message, and
  the digest of that digest, which is the double hash of the empty message that the
  specification gives as its anchor (\<open>5df6e0e2...9456\<close>).
\<close>

lemma Sum256_empty:
  "Sum256 [] =
     DecodeString ''e3b0c44298fc1c149afbf4c8996fb92427ae41e4649b934ca495991b7852b855''"
  by code_simp

lemma Sum256_of_empty_digest:
  "Sum256 (DecodeString ''e3b0c44298fc1c149afbf4c8996fb92427ae41e4649b934ca495991b7852b855'') =
     DecodeString ''5df6e0e2761359d30a8275058e299fcc0381534545f55cf43e41983f5d4c9456''"
  by code_simp

lemma doubleSHA256_empty:
  "doubleSHA256 [] =
     DecodeString ''5df6e0e2761359d30a8275058e299fcc0381534545f55cf43e41983f5d4c9456''"
  unfolding doubleSHA256_def Let_def Sum256_empty by (rule Sum256_of_empty_digest)

lemma SetBytes_foldl_bound:
  "acc < 256 ^ k \<Longrightarrow> foldl (\<lambda>acc b. acc * 256 + unat (b :: byte)) acc bs < 256 ^ (k + length bs)"
proof (induction bs arbitrary: acc k)
  case Nil
  then show ?case by simp
next
  case (Cons b bs)
  have "unat b < 256" using unsigned_less [of b] by simp
  moreover have "acc + 1 \<le> 256 ^ k" using Cons.prems by simp
  then have "(acc + 1) * 256 \<le> 256 ^ k * 256" by (rule mult_le_mono1)
  ultimately have "acc * 256 + unat b < 256 ^ Suc k" by simp
  then have "foldl (\<lambda>acc b. acc * 256 + unat b) (acc * 256 + unat b) bs < 256 ^ (Suc k + length bs)"
    by (rule Cons.IH)
  then show ?case by simp
qed

lemma SetBytes_bound: "SetBytes bs < 256 ^ length bs"
  using SetBytes_foldl_bound [of 0 0 bs] by (simp add: SetBytes_def)

lemma hashInt_bound: "hashInt header < 2 ^ 256"
proof -
  have "hashInt header < 256 ^ 32"
    using SetBytes_bound [of "reverseBytes (doubleSHA256 header)"] by (simp add: hashInt_def)
  also have "(256 :: nat) ^ 32 = 2 ^ 256" by simp
  finally show ?thesis .
qed

subsection \<open>Compact targets\<close>

lemma calculateTarget_1d00ffff: "calculateTarget ''1d00ffff'' = Inr difficulty1Target"
  by (simp add: calculateTarget_def fromHexChar_def Lsh_def Let_def maxAlloc_def SetBytes_def slice_def
      difficulty1Target_def nat_words_def bitlen.simps)

lemma unat_ucast_byte: "unat (ucast (e :: byte) :: u64) = unat e"
proof -
  have "unat e < 2 ^ 8" using unsigned_less [of e] by simp
  then have "unat e < 2 ^ 64" by simp
  then show ?thesis by (simp add: unsigned_ucast_eq take_bit_nat_eq_self)
qed

lemma unat_exp_shift:
  fixes e :: byte
  assumes "3 \<le> unat e"
  shows "unat (8 * ((ucast e :: u64) - 3)) = 8 * (unat e - 3)"
proof -
  have le: "(3 :: u64) \<le> ucast e"
    using assms by (simp add: word_le_nat_alt unat_ucast_byte)
  have sub: "unat ((ucast e :: u64) - 3) = unat e - 3"
    using le by (simp add: unat_sub unat_ucast_byte)
  have "unat e < 256"
    using unsigned_less [of e] by simp
  then have "unat (8 :: u64) * unat ((ucast e :: u64) - 3) < 2 ^ LENGTH(64)"
    by (simp add: sub)
  then have "unat (8 * ((ucast e :: u64) - 3)) = unat (8 :: u64) * unat ((ucast e :: u64) - 3)"
    by (simp only: unat_mult_lem)
  then show ?thesis by (simp only: sub) simp
qed

lemma unat_exp_shift':
  fixes e :: byte
  assumes "3 \<le> unat e"
  shows "unat (8 * (ucast e :: u64) - 24) = 8 * (unat e - 3)"
proof -
  have "8 * (ucast e :: u64) - 24 = 8 * ((ucast e :: u64) - 3)" by simp
  then show ?thesis using unat_exp_shift [OF assms] by (simp only:)
qed

lemma unat_exp_wrap:
  fixes e :: byte
  assumes "unat e < 3"
  shows "2 ^ 63 \<le> unat (8 * (ucast e :: u64) - 24)"
proof -
  have "unat e = 0 \<or> unat e = 1 \<or> unat e = 2" using assms by arith
  then have "e = 0 \<or> e = 1 \<or> e = 2"
    by (auto simp: word_unat_eq_iff)
  then show ?thesis by auto
qed

lemma bitlen_le: "x < 2 ^ n \<Longrightarrow> bitlen x \<le> n"
proof (induction n arbitrary: x)
  case 0
  then show ?case by (simp add: bitlen.simps)
next
  case (Suc n)
  have "x div 2 < 2 ^ n" using Suc.prems by simp
  then have "bitlen (x div 2) \<le> n" by (rule Suc.IH)
  then show ?case by (subst bitlen.simps) simp
qed

lemma SetBytes3_lt: "SetBytes [a, b, c] < 2 ^ 24"
proof -
  have "unat a < 256" "unat b < 256" "unat c < 256"
    using unsigned_less [of a] unsigned_less [of b] unsigned_less [of c] by simp_all
  then show ?thesis by (simp add: SetBytes_def)
qed

lemma calculateTarget_four:
  assumes "DecodeString nbits = [e, a, b, c]"
  shows "calculateTarget nbits = Lsh (SetBytes [a, b, c]) (8 * (ucast e :: u64) - 24)"
  using assms by (simp add: calculateTarget_def Let_def slice_def)

lemma Lsh_in_range:
  assumes "x < 2 ^ 24" and "unat n \<le> 2040"
  shows "Lsh x n = Inr (x * 2 ^ unat n)"
proof -
  have "nat_words x \<le> 1"
    using bitlen_le [OF assms(1)] by (simp add: nat_words_def)
  moreover have "unat n div 64 \<le> 31"
    using assms(2) by simp
  ultimately have "8 * (nat_words x + unat n div 64 + 1 + 4) \<le> maxAlloc"
    by (simp add: maxAlloc_def)
  then show ?thesis by (simp add: Lsh_def Let_def)
qed

lemma Lsh_wrapped:
  assumes "x \<noteq> 0" and "2 ^ 63 \<le> unat n"
  shows "Lsh x n = Inl MakesliceLenOutOfRange"
proof -
  have "2 ^ 63 div 64 \<le> unat n div 64"
    using assms(2) by (rule div_le_mono)
  then have "maxAlloc < 8 * (nat_words x + unat n div 64 + 1)"
    by (simp add: maxAlloc_def)
  then show ?thesis using assms(1) by (simp add: Lsh_def Let_def)
qed

lemma calculateTarget_exp_ge_3:
  assumes "DecodeString nbits = [e, a, b, c]" and "3 \<le> unat e"
  shows "calculateTarget nbits = Inr (SetBytes [a, b, c] * 2 ^ (8 * (unat e - 3)))"
proof -
  have "unat e < 256" using unsigned_less [of e] by simp
  then have "unat (8 * (ucast e :: u64) - 24) \<le> 2040"
    by (simp add: unat_exp_shift' [OF assms(2)])
  then show ?thesis
    by (simp add: calculateTarget_four [OF assms(1)] Lsh_in_range [OF SetBytes3_lt]
        unat_exp_shift' [OF assms(2)])
qed

lemma calculateTarget_exp_lt_3:
  assumes "DecodeString nbits = [e, a, b, c]" and "unat e < 3" and "SetBytes [a, b, c] \<noteq> 0"
  shows "calculateTarget nbits = Inl MakesliceLenOutOfRange"
  by (simp add: calculateTarget_four [OF assms(1)] Lsh_wrapped [OF assms(3) unat_exp_wrap [OF assms(2)]])

lemma calculateTarget_not_four:
  "length (DecodeString nbits) \<noteq> 4 \<Longrightarrow> calculateTarget nbits = Inr 0"
  by (simp add: calculateTarget_def)

text \<open>
  C2 (target decoding). For an exponent of at least 3 the code returns
  \<open>c * 2 ^ (8 * (e - 3))\<close> (\<open>calculateTarget_exp_ge_3\<close>), for an input that does not
  decode to four bytes it returns zero (\<open>calculateTarget_not_four\<close>), and
  \<open>"1d00ffff"\<close> gives the difficulty-1 target (\<open>calculateTarget_1d00ffff\<close>). For an
  exponent below 3 and a nonzero coefficient the shift count \<open>uint(8*(exp-3))\<close> wraps
  around to more than \<open>2 ^ 63\<close> and \<open>Lsh\<close> panics on its allocation
  (\<open>calculateTarget_exp_lt_3\<close>). At \<open>"02008000"\<close>, exponent 2 and coefficient
  \<open>0x008000\<close>, the right shift of the specification would give \<open>0x80\<close>; the code panics.
\<close>

theorem calculateTarget_02008000:
  "DecodeString ''02008000'' = [0x02, 0x00, 0x80, 0x00] \<and>
   calculateTarget ''02008000'' = Inl MakesliceLenOutOfRange"
  by (simp add: calculateTarget_def fromHexChar_def Lsh_def Let_def maxAlloc_def SetBytes_def slice_def
      nat_words_def bitlen.simps)

subsection \<open>The Stratum client\<close>

lemma nextID_counts:
  "fst (nextID c) = sint (requestID c + 1)" "requestID (snd (nextID c)) = requestID c + 1"
  by (simp_all add: nextID_def)

text \<open>
  C5 (request numbering). Every request takes \<open>requestID + 1\<close>, and nothing ever resets
  \<open>requestID\<close>: not \<open>Close\<close>, and not \<open>Connect\<close>, which does reinitialise the shutdown
  channel for a reconnection. On a new client the first \<open>Subscribe\<close> and \<open>Authorize\<close> are
  sent with ids 1 and 2; after \<open>Close\<close> and a second \<open>Connect\<close> on the same client the
  next \<open>Subscribe\<close> and \<open>Authorize\<close> are sent with ids 3 and 4.
\<close>

theorem reconnect_subscribe_id_3:
  "(case run_client (NewClient ''solo.ckpool.org'' 3333)
      [CallConnect True, CallSubscribe, CallAuthorize ''wallet'' ''x'', CallClose,
       CallConnect True, CallSubscribe, CallAuthorize ''wallet'' ''x'']
    of Inl f \<Rightarrow> False
     | Inr c \<Rightarrow> map (\<lambda>r. (req_id r, req_method r)) (wire c) =
         [(1, ''mining.subscribe''), (2, ''mining.authorize''),
          (3, ''mining.subscribe''), (4, ''mining.authorize'')])"
  by (simp add: NewClient_def Connect_def Subscribe_def Authorize_def Close_def nextID_def
      send_def)

text \<open>
  C8 (short \<open>mining.notify\<close>). A \<open>mining.notify\<close> notification whose parameter array has
  fewer than nine elements leaves the whole client state as it was: in particular the
  current job is unchanged and no call of \<open>onJobReceived\<close> is recorded.
\<close>

theorem notify_short_params_dropped:
  assumes "length p < 9"
  shows "handleNotification c ''mining.notify'' (JArr p) = c \<and>
         currentJob (handleNotification c ''mining.notify'' (JArr p)) = currentJob c \<and>
         events (handleNotification c ''mining.notify'' (JArr p)) = events c"
  using assms by (simp add: handleNotification_def handleMiningNotify_def unmarshal_raws_def)

theorem notify_short_params_dropped_witness:
  "length [JStr ''job1'', JStr ''00'', JStr ''01'', JStr ''02'', JArr [], JStr ''20000000'',
           JStr ''1d00ffff'', JStr ''5f5e1000''] < 9 \<and>
   handleNotification (SetJobCallback (NewClient ''solo.ckpool.org'' 3333) True) ''mining.notify''
     (JArr [JStr ''job1'', JStr ''00'', JStr ''01'', JStr ''02'', JArr [], JStr ''20000000'',
            JStr ''1d00ffff'', JStr ''5f5e1000''])
   = SetJobCallback (NewClient ''solo.ckpool.org'' 3333) True"
  using notify_short_params_dropped
    [of "[JStr ''job1'', JStr ''00'', JStr ''01'', JStr ''02'', JArr [], JStr ''20000000'',
          JStr ''1d00ffff'', JStr ''5f5e1000'']"
        "SetJobCallback (NewClient ''solo.ckpool.org'' 3333) True"]
  by simp

text \<open>A full notification, for contrast, does replace the job and call the callback.\<close>

lemma notify_full_params_accepted:
  "currentJob (handleNotification (SetJobCallback (NewClient ''solo.ckpool.org'' 3333) True)
     ''mining.notify''
     (JArr [JStr ''job1'', JStr ''00'', JStr ''01'', JStr ''02'', JArr [], JStr ''20000000'',
            JStr ''1d00ffff'', JStr ''5f5e1000'', JBool True])) \<noteq> None"
  by (simp add: handleNotification_def handleMiningNotify_def unmarshal_raws_def Let_def)

subsection \<open>The configuration\<close>

lemma Update_fields:
  "PoolURL (Update c u) =
     (case assert_string (u ''pool_url'') of Some v \<Rightarrow> v | None \<Rightarrow> PoolURL c)"
  "PoolPort (Update c u) =
     (case assert_float64 (u ''pool_port'') of Some v \<Rightarrow> int_of_float64 v | None \<Rightarrow> PoolPort c)"
  "WalletAddress (Update c u) =
     (case assert_string (u ''wallet_address'') of Some v \<Rightarrow> v | None \<Rightarrow> WalletAddress c)"
  "MaxCPUPercent (Update c u) =
     (case assert_float64 (u ''max_cpu_percent'') of
        Some v \<Rightarrow> int_of_float64 v | None \<Rightarrow> MaxCPUPercent c)"
  "NumWorkers (Update c u) =
     (case assert_float64 (u ''num_workers'') of
        Some v \<Rightarrow> int_of_float64 v | None \<Rightarrow> NumWorkers c)"
  by (simp_all add: Update_def split: option.splits)

lemma assert_string_iff: "assert_string x = Some s \<longleftrightarrow> x = Some (JStr s)"
  by (auto simp: assert_string_def split: option.splits json.splits)

lemma assert_float64_iff: "assert_float64 x = Some v \<longleftrightarrow> x = Some (JNum v)"
  by (auto simp: assert_float64_def split: option.splits json.splits)

lemma assert_string_None: "assert_string x = None \<longleftrightarrow> (\<nexists>s. x = Some (JStr s))"
  by (auto simp: assert_string_def split: option.splits json.splits)

lemma assert_float64_None: "assert_float64 x = None \<longleftrightarrow> (\<nexists>v. x = Some (JNum v))"
  by (auto simp: assert_float64_def split: option.splits json.splits)

lemma Update_cong:
  assumes "\<forall>k \<in> {''pool_url'', ''pool_port'', ''wallet_address'', ''max_cpu_percent'', ''num_workers''}.
             u' k = u k"
  shows "Update c u' = Update c u"
  using assms by (simp add: Update_def)

lemma Update_string_applied:
  "u ''pool_url'' = Some (JStr v) \<Longrightarrow> PoolURL (Update c u) = v"
  "u ''wallet_address'' = Some (JStr v) \<Longrightarrow> WalletAddress (Update c u) = v"
  by (simp_all add: Update_fields assert_string_def)

lemma Update_number_applied:
  "u ''pool_port'' = Some (JNum x) \<Longrightarrow> PoolPort (Update c u) = int_of_float64 x"
  "u ''max_cpu_percent'' = Some (JNum x) \<Longrightarrow> MaxCPUPercent (Update c u) = int_of_float64 x"
  "u ''num_workers'' = Some (JNum x) \<Longrightarrow> NumWorkers (Update c u) = int_of_float64 x"
  by (simp_all add: Update_fields assert_float64_def)

lemma Update_string_ignored:
  "\<nexists>v. u ''pool_url'' = Some (JStr v) \<Longrightarrow> PoolURL (Update c u) = PoolURL c"
  "\<nexists>v. u ''wallet_address'' = Some (JStr v) \<Longrightarrow> WalletAddress (Update c u) = WalletAddress c"
  by (simp_all add: Update_fields assert_string_None [THEN iffD2])

lemma Update_number_ignored:
  "\<nexists>x. u ''pool_port'' = Some (JNum x) \<Longrightarrow> PoolPort (Update c u) = PoolPort c"
  "\<nexists>x. u ''max_cpu_percent'' = Some (JNum x) \<Longrightarrow> MaxCPUPercent (Update c u) = MaxCPUPercent c"
  "\<nexists>x. u ''num_workers'' = Some (JNum x) \<Longrightarrow> NumWorkers (Update c u) = NumWorkers c"
  by (simp_all add: Update_fields assert_float64_None [THEN iffD2])

text \<open>
  C10 (configuration update). Each of the five keys is applied exactly when its value has
  the matching dynamic type (a string for \<open>pool_url\<close> and \<open>wallet_address\<close>, a number for
  \<open>pool_port\<close>, \<open>max_cpu_percent\<close> and \<open>num_workers\<close>, stored after the conversion
  \<open>int(v)\<close>); a key that is missing or has a value of another type leaves its field
  unchanged; and no other key of the map has any effect.
\<close>

theorem Update_typed_keys_only:
  "(\<forall>v. u ''pool_url'' = Some (JStr v) \<longrightarrow> PoolURL (Update c u) = v) \<and>
   ((\<nexists>v. u ''pool_url'' = Some (JStr v)) \<longrightarrow> PoolURL (Update c u) = PoolURL c) \<and>
   (\<forall>v. u ''pool_port'' = Some (JNum v) \<longrightarrow> PoolPort (Update c u) = int_of_float64 v) \<and>
   ((\<nexists>v. u ''pool_port'' = Some (JNum v)) \<longrightarrow> PoolPort (Update c u) = PoolPort c) \<and>
   (\<forall>v. u ''wallet_address'' = Some (JStr v) \<longrightarrow> WalletAddress (Update c u) = v) \<and>
   ((\<nexists>v. u ''wallet_address'' = Some (JStr v)) \<longrightarrow>
      WalletAddress (Update c u) = WalletAddress c) \<and>
   (\<forall>v. u ''max_cpu_percent'' = Some (JNum v) \<longrightarrow>
      MaxCPUPercent (Update c u) = int_of_float64 v) \<and>
   ((\<nexists>v. u ''max_cpu_percent'' = Some (JNum v)) \<longrightarrow>
      MaxCPUPercent (Update c u) = MaxCPUPercent c) \<and>
   (\<forall>v. u ''num_workers'' = Some (JNum v) \<longrightarrow> NumWorkers (Update c u) = int_of_float64 v) \<and>
   ((\<nexists>v. u ''num_workers'' = Some (JNum v)) \<longrightarrow> NumWorkers (Update c u) = NumWorkers c) \<and>
   (\<forall>u'. (\<forall>k \<in> {''pool_url'', ''pool_port'', ''wallet_address'', ''max_cpu_percent'',
                  ''num_workers''}. u' k = u k) \<longrightarrow> Update c u' = Update c u)"
  by (intro conjI allI impI Update_string_applied Update_number_applied
      Update_string_ignored Update_number_ignored Update_cong) assumption+

theorem Update_typed_keys_only_witness:
  "example_updates ''pool_url'' = Some (JStr ''pool.example.org'') \<and>
   PoolURL (Update DefaultConfig example_updates) = ''pool.example.org'' \<and>
   (\<nexists>v. example_updates ''pool_port'' = Some (JNum v)) \<and>
   PoolPort (Update DefaultConfig example_updates) = 3333 \<and>
   example_updates ''num_workers'' = Some (JNum 8) \<and>
   NumWorkers (Update DefaultConfig example_updates) = 8 \<and>
   example_updates ''theme'' \<noteq> (example_updates(''theme'' := None)) ''theme'' \<and>
   Update DefaultConfig (example_updates(''theme'' := None)) = Update DefaultConfig example_updates"
proof -
  note T = Update_typed_keys_only [of example_updates DefaultConfig]
  have url: "example_updates ''pool_url'' = Some (JStr ''pool.example.org'')"
    by (simp add: example_updates_def)
  have port: "\<nexists>v. example_updates ''pool_port'' = Some (JNum v)"
    by (simp add: example_updates_def)
  have workers: "example_updates ''num_workers'' = Some (JNum 8)"
    by (simp add: example_updates_def)
  have same: "\<forall>k \<in> {''pool_url'', ''pool_port'', ''wallet_address'', ''max_cpu_percent'',
      ''num_workers''}. (example_updates(''theme'' := None)) k = example_updates k"
    by simp
  have "PoolURL (Update DefaultConfig example_updates) = ''pool.example.org''"
    using T url by blast
  moreover have "PoolPort (Update DefaultConfig example_updates) = PoolPort DefaultConfig"
    using T port by blast
  moreover have "NumWorkers (Update DefaultConfig example_updates) = int_of_float64 8"
    using T workers by blast
  moreover have "Update DefaultConfig (example_updates(''theme'' := None))
      = Update DefaultConfig example_updates"
    using T same by blast
  moreover have "int_of_float64 8 = 8" "PoolPort DefaultConfig = 3333"
    by (simp_all add: int_of_float64_def DefaultConfig_def)
  moreover have "example_updates ''theme'' \<noteq> (example_updates(''theme'' := None)) ''theme''"
    by (simp add: example_updates_def)
  ultimately show ?thesis
    using url port workers by (simp only: simp_thms)
qed

subsection \<open>The job mailbox\<close>

text \<open>The last \<open>n\<close> elements of a list.\<close>

lemma drop_last_append:
  "drop (length (drop (length xs - n) xs @ ys) - n) (drop (length xs - n) xs @ ys)
     = drop (length (xs @ ys) - n) (xs @ ys)"
  by (cases "length xs \<le> n") (auto simp: add.commute)

lemma UpdateJob_buf:
  assumes "0 < cap (jobChannel w)" and "length (buf (jobChannel w)) \<le> cap (jobChannel w)"
  shows "UpdateJob w j =
           Inr (w\<lparr>jobChannel := (jobChannel w)
                  \<lparr>buf := drop (length (buf (jobChannel w) @ [j]) - cap (jobChannel w))
                            (buf (jobChannel w) @ [j])\<rparr>\<rparr>)"
proof (cases "length (buf (jobChannel w)) < cap (jobChannel w)")
  case True
  then show ?thesis by (simp add: UpdateJob_def try_send_def)
next
  case False
  with assms have full: "length (buf (jobChannel w)) = cap (jobChannel w)" by simp
  with assms(1) obtain old rest where b: "buf (jobChannel w) = old # rest"
    by (cases "buf (jobChannel w)") auto
  with full have "length rest < cap (jobChannel w)" by auto
  with b full show ?thesis
    by (simp add: UpdateJob_def try_send_def try_recv_def)
qed

lemma run_UpdateJob:
  assumes "0 < cap (jobChannel w)" and "length (buf (jobChannel w)) \<le> cap (jobChannel w)"
  shows "run_calls w (map CallUpdateJob js) =
           Inr (w\<lparr>jobChannel := (jobChannel w)
                  \<lparr>buf := drop (length (buf (jobChannel w) @ js) - cap (jobChannel w))
                            (buf (jobChannel w) @ js)\<rparr>\<rparr>)"
  using assms
proof (induction js arbitrary: w)
  case Nil
  then show ?case by simp
next
  case (Cons j js)
  let ?w1 = "w\<lparr>jobChannel := (jobChannel w)
                  \<lparr>buf := drop (length (buf (jobChannel w) @ [j]) - cap (jobChannel w))
                            (buf (jobChannel w) @ [j])\<rparr>\<rparr>"
  have step: "UpdateJob w j = Inr ?w1"
    using Cons.prems by (rule UpdateJob_buf)
  have "0 < cap (jobChannel ?w1)" "length (buf (jobChannel ?w1)) \<le> cap (jobChannel ?w1)"
    using Cons.prems by auto
  then have "run_calls ?w1 (map CallUpdateJob js) =
           Inr (?w1\<lparr>jobChannel := (jobChannel ?w1)
                  \<lparr>buf := drop (length (buf (jobChannel ?w1) @ js) - cap (jobChannel ?w1))
                            (buf (jobChannel ?w1) @ js)\<rparr>\<rparr>)"
    by (rule Cons.IH)
  moreover have "drop (length (buf (jobChannel ?w1) @ js) - cap (jobChannel ?w1))
                            (buf (jobChannel ?w1) @ js)
     = drop (length (buf (jobChannel w) @ j # js) - cap (jobChannel w)) (buf (jobChannel w) @ j # js)"
    using drop_last_append [of "buf (jobChannel w) @ [j]" "cap (jobChannel w)" js] by simp
  ultimately show ?case
    using step by simp
qed

lemma NewWorker_mailbox:
  "run_calls (NewWorker i n p) (map CallUpdateJob js) =
     Inr ((NewWorker i n p)\<lparr>jobChannel := \<lparr>cap = 10, buf = drop (length js - 10) js\<rparr>\<rparr>)"
  using run_UpdateJob [of "NewWorker i n p" js] by (simp add: NewWorker_def)

text \<open>
  C3 (lossy-latest mailbox), as the code has it. After 1000 \<open>UpdateJob\<close> calls on a new
  worker whose loop takes nothing out, no call has blocked and the mailbox holds the last
  ten jobs in the order of their arrival: the next job the worker receives is the 991st,
  the oldest one kept, and the last job enqueued is the last one in the mailbox.
\<close>

theorem mailbox_after_1000_updates:
  assumes "length js = 1000"
  shows "\<exists>w. run_calls (NewWorker i n p) (map CallUpdateJob js) = Inr w \<and>
             buf (jobChannel w) = drop 990 js \<and>
             map_option fst (try_recv (jobChannel w)) = Some (js ! 990) \<and>
             last (buf (jobChannel w)) = last js"
proof -
  have d: "drop 990 js = js ! 990 # drop 991 js"
    using assms Cons_nth_drop_Suc [of 990 js] by simp
  have "last (drop 990 js) = last js"
    using assms by (simp add: last_drop)
  then show ?thesis
    using assms by (simp add: NewWorker_mailbox try_recv_def d)
qed

theorem mailbox_after_1000_updates_witness:
  "length example_jobs = 1000 \<and>
   (\<exists>w. run_calls (NewWorker 1 ''Worker A'' 80) (map CallUpdateJob example_jobs) = Inr w \<and>
        buf (jobChannel w) = drop 990 example_jobs \<and>
        map_option fst (try_recv (jobChannel w)) = Some (example_jobs ! 990) \<and>
        last (buf (jobChannel w)) = last example_jobs)"
proof -
  have len: "length example_jobs = 1000"
    by (simp add: example_jobs_def)
  from mailbox_after_1000_updates [OF len, of 1 "''Worker A''" 80] len show ?thesis
    by (intro conjI)
qed

text \<open>
  That the next job observed is the last one enqueued fails on these thousand jobs: the
  job the worker receives next is job \<open>a\<close>, while the last job enqueued is job \<open>b\<close>.
\<close>

theorem mailbox_next_is_not_last:
  "length example_jobs = 1000 \<and>
   last example_jobs = example_job ''b'' ''1d00ffff'' \<and>
   example_job ''a'' ''1d00ffff'' \<noteq> example_job ''b'' ''1d00ffff'' \<and>
   (case run_calls (NewWorker 1 ''Worker A'' 80) (map CallUpdateJob example_jobs) of
      Inl f \<Rightarrow> False
    | Inr w \<Rightarrow> map_option fst (try_recv (jobChannel w)) = Some (example_job ''a'' ''1d00ffff''))"
proof -
  have nine: "replicate 9 (example_job ''a'' ''1d00ffff'')
      = example_job ''a'' ''1d00ffff'' # replicate 8 (example_job ''a'' ''1d00ffff'')"
    using replicate_Suc [of 8 "example_job ''a'' ''1d00ffff''"] by simp
  have "drop 990 example_jobs
      = replicate 9 (example_job ''a'' ''1d00ffff'') @ [example_job ''b'' ''1d00ffff'']"
    by (simp add: example_jobs_def)
  then have kept: "drop (length example_jobs - 10) example_jobs
      = example_job ''a'' ''1d00ffff'' #
        replicate 8 (example_job ''a'' ''1d00ffff'') @ [example_job ''b'' ''1d00ffff'']"
    by (simp add: nine example_jobs_def)
  have "example_job ''a'' ''1d00ffff'' \<noteq> example_job ''b'' ''1d00ffff''"
    by (simp add: example_job_def)
  then show ?thesis
    by (simp add: NewWorker_mailbox kept try_recv_def) (simp add: example_jobs_def)
qed

subsection \<open>The block header\<close>

lemma fit_length [simp]: "length (fit n src) = n"
  by (simp add: fit_def)

lemma fit_exact: "length src = n \<Longrightarrow> fit n src = src"
  by (simp add: fit_def)

lemma copy_into_slot:
  assumes "length a = lo" and "hi - lo = n"
  shows "copy_into (a @ replicate n 0 @ c) lo hi src = a @ fit n src @ c"
proof -
  have "drop (min n (length src)) (replicate n (0 :: byte)) = replicate (n - length src) 0"
    by (simp add: min_def)
  then show ?thesis
    using assms by (simp add: copy_into_def fit_def min_def)
qed

lemma merkle_fold_length:
  "length acc = 32 \<Longrightarrow>
   length (foldl (\<lambda>root branch. doubleSHA256 (root @ DecodeString branch)) acc branches) = 32"
  by (induction branches arbitrary: acc) simp_all

lemma merkleRoot_length [simp]: "length (merkleRoot j e1 e2) = 32"
  by (simp add: merkleRoot_def merkle_fold_length)

lemma buildHeader_layout:
  "buildHeader j e1 e2 =
     fit 4 (DecodeString (Version j)) @ fit 32 (DecodeString (PrevHash j)) @
     reverseBytes (merkleRoot j e1 e2) @
     fit 4 (DecodeString (NTime j)) @ fit 4 (DecodeString (NBits j)) @ replicate 4 0"
proof -
  let ?v = "DecodeString (Version j)" and ?p = "DecodeString (PrevHash j)"
  let ?m = "reverseBytes (merkleRoot j e1 e2)"
  let ?t = "DecodeString (NTime j)" and ?b = "DecodeString (NBits j)"
  let ?z4 = "replicate 4 (0 :: byte)" and ?z32 = "replicate 32 (0 :: byte)"
  have h0: "replicate 80 (0 :: byte) = [] @ ?z4 @ (?z32 @ ?z32 @ ?z4 @ ?z4 @ ?z4)"
    by (simp flip: replicate_add)
  have h1: "copy_into (replicate 80 0) 0 4 ?v = fit 4 ?v @ ?z32 @ (?z32 @ ?z4 @ ?z4 @ ?z4)"
    by (subst h0, subst copy_into_slot) simp_all
  have h2: "copy_into (fit 4 ?v @ ?z32 @ (?z32 @ ?z4 @ ?z4 @ ?z4)) 4 36 ?p
              = (fit 4 ?v @ fit 32 ?p) @ ?z32 @ (?z4 @ ?z4 @ ?z4)"
    by (subst copy_into_slot) simp_all
  have h3: "copy_into ((fit 4 ?v @ fit 32 ?p) @ ?z32 @ (?z4 @ ?z4 @ ?z4)) 36 68 ?m
              = (fit 4 ?v @ fit 32 ?p @ ?m) @ ?z4 @ (?z4 @ ?z4)"
    by (subst copy_into_slot) (simp_all add: fit_exact)
  have h4: "copy_into ((fit 4 ?v @ fit 32 ?p @ ?m) @ ?z4 @ (?z4 @ ?z4)) 68 72 ?t
              = (fit 4 ?v @ fit 32 ?p @ ?m @ fit 4 ?t) @ ?z4 @ ?z4"
    by (subst copy_into_slot) simp_all
  have h5: "copy_into ((fit 4 ?v @ fit 32 ?p @ ?m @ fit 4 ?t) @ ?z4 @ ?z4) 72 76 ?b
              = (fit 4 ?v @ fit 32 ?p @ ?m @ fit 4 ?t) @ fit 4 ?b @ ?z4"
    by (subst copy_into_slot) simp_all
  show ?thesis
    unfolding buildHeader_def Let_def h1 h2 h3 h4 h5 by simp
qed




subsection \<open>The search loop\<close>

lemma PutUint32_length [simp]: "length (PutUint32 b off v) = length b"
  by (simp add: PutUint32_def)

lemma buildHeader_length [simp]: "length (buildHeader j e1 e2) = 80"
  by (simp add: buildHeader_layout)




lemma mineBatch_first_nonce_wins:
  assumes "calculateTarget (NBits j) = Inr T" and "2 ^ 256 \<le> T" and "0 < batchSize"
  shows "mineBatch j e1 e2 batchSize rnd =
           Inr ((True, Sprintf_08x (rnd 0),
                 fst (trackBest (hashInt (PutUint32 (buildHeader j e1 e2) 76 (rnd 0))) (rnd 0)
                        (0, ''''))), 1)"
proof -
  have "[0..<nat batchSize] = 0 # [1..<nat batchSize]"
    using assms(3) by (simp add: upt_conv_Cons)
  moreover have "hashInt (PutUint32 (buildHeader j e1 e2) 76 (rnd 0)) \<le> T"
    using hashInt_bound [of "PutUint32 (buildHeader j e1 e2) 76 (rnd 0)"] assms(2) by simp
  ultimately show ?thesis
    using assms(1) by (simp add: mineBatch_def Let_def)
qed

lemma calculateTarget_21ffffff: "calculateTarget ''21ffffff'' = Inr (0xffffff * 2 ^ 240)"
  by (simp add: calculateTarget_def fromHexChar_def Lsh_def Let_def maxAlloc_def SetBytes_def slice_def
      nat_words_def bitlen.simps)


lemma Sprintf_08x_0: "Sprintf_08x 0 = ''00000000''"
  by (simp add: Sprintf_08x_def hexDigit_def)

lemma upt_0_4: "[0..<4] = [0, 1, 2, 3]"
  by (simp add: upt_conv_Cons)

lemma generateExtranonce2_zero_4: "generateExtranonce2 4 (\<lambda>_. 0) = Inr ''00000000''"
  by (simp add: generateExtranonce2_def maxAlloc_def hexDigit_def upt_0_4)

lemma example_job_fields [simp]:
  "ID (example_job i n) = i" "NBits (example_job i n) = n" "NTime (example_job i n) = ''665f1a2b''"
  "MerkleBranch (example_job i n) = []" "Version (example_job i n) = ''20000000''"
  by (simp_all add: example_job_def)

lemma example_worker_reachable:
  "run_calls (NewWorker 1 ''Worker A'' 100)
     [CallSetShareCallback True, CallStart ''a1b2c3d4'' 4 (\<lambda>_. 0),
      CallUpdateJob (example_job ''1'' ''21ffffff''), LoopIteration PickJob (\<lambda>_. 0) rn]
   = Inr example_worker"
  by (simp add: example_worker_def NewWorker_def SetShareCallback_def Start_def UpdateJob_def
      try_send_def try_recv_def mineLoop_iter_def generateExtranonce2_zero_4)

lemma example_worker_batch:
  "\<exists>d. mineLoop_iter pick rb (\<lambda>_. 0) example_worker =
     Inr (Batch (True, ''00000000'', d),
          example_worker\<lparr>hashCount := 1,
            shares := [\<lparr>share_workerID = 1, share_jobID = ''1'',
                        share_extranonce2 = ''00000000'', share_ntime = ''665f1a2b'',
                        share_nonce = ''00000000'', share_difficulty = d\<rparr>]\<rparr>)"
proof -
  have T: "calculateTarget (NBits (example_job ''1'' ''21ffffff'')) = Inr (0xffffff * 2 ^ 240)"
    by (simp add: calculateTarget_21ffffff)
  have big: "(2 :: nat) ^ 256 \<le> 0xffffff * 2 ^ 240" by simp
  note hit = mineBatch_first_nonce_wins [OF T big, of 1000 "''a1b2c3d4''" "''00000000''" "\<lambda>_. 0"]
  show ?thesis
    by (simp add: mineLoop_iter_def example_worker_def NewWorker_def try_recv_def hit
        Sprintf_08x_0)
qed


subsection \<open>The worker's extranonce2\<close>

lemma EncodeToString_length [simp]: "length (EncodeToString bs) = 2 * length bs"
  by (induction bs) simp_all

lemma generateExtranonce2_length:
  "generateExtranonce2 m rnd = Inr s \<Longrightarrow> length s = 2 * nat m"
  by (auto simp: generateExtranonce2_def split: if_splits)

lemma generateExtranonce2_again:
  assumes "generateExtranonce2 m rnd = Inr s"
  shows "\<exists>s'. generateExtranonce2 (int (length s) div 2) rnd' = Inr s' \<and> length s' = length s"
proof -
  from assms have m: "0 \<le> m" "2 * m \<le> int maxAlloc" and len: "length s = 2 * nat m"
    by (auto simp: generateExtranonce2_def split: if_splits)
  from len m have "int (length s) div 2 = m" by simp
  with m len show ?thesis
    by (simp add: generateExtranonce2_def)
qed

lemma apply_call_e2_inv:
  assumes "e2_inv n w" and "apply_call w c = Inr w'"
    and "\<forall>e1 m rnd. c = CallStart e1 m rnd \<longrightarrow> m = n"
  shows "e2_inv n w'"
proof (cases c)
  case (CallStart e1 m rnd)
  with assms(3) have "m = n" by simp
  with CallStart assms(1,2) show ?thesis
    by (auto simp: e2_inv_def Start_def dest: generateExtranonce2_length
        split: if_splits sum.splits)
next
  case CallStop
  with assms(1,2) show ?thesis
    by (auto simp: e2_inv_def Stop_def split: if_splits)
next
  case (CallUpdateJob j)
  with assms(1,2) show ?thesis
    by (auto simp: e2_inv_def UpdateJob_def split: option.splits)
next
  case (CallSetCPUPercent p)
  with assms(1,2) show ?thesis
    by (auto simp: e2_inv_def SetCPUPercent_def)
next
  case (CallSetShareCallback cb)
  with assms(1,2) show ?thesis
    by (auto simp: e2_inv_def SetShareCallback_def)
next
  case (LoopIteration pick rb rn)
  show ?thesis
  proof (cases "goroutines w = 0")
    case True
    with LoopIteration assms(1,2) show ?thesis by simp
  next
    case False
    with assms(1) have len: "length (extranonce2 w) = 2 * nat n"
      and sh: "list_all (\<lambda>s. length (share_extranonce2 s) = 2 * nat n) (shares w)"
      by (auto simp: e2_inv_def)
    from False LoopIteration assms(2) obtain r where
      it: "mineLoop_iter pick rb rn w = Inr (r, w')"
      by (auto split: sum.splits)
    have half: "int (length (extranonce2 w)) div 2 = int (nat n)"
      using len by simp
    have "length (extranonce2 w') = 2 * nat n \<and>
          list_all (\<lambda>s. length (share_extranonce2 s) = 2 * nat n) (shares w')"
      using it len sh
      by (auto simp: mineLoop_iter_def half dest: generateExtranonce2_length
          split: if_splits option.splits sum.splits prod.splits)
    then show ?thesis by (simp add: e2_inv_def)
  qed
qed

lemma run_calls_e2_inv:
  assumes "e2_inv n w" and "run_calls w calls = Inr w'"
    and "\<forall>c \<in> set calls. \<forall>e1 m rnd. c = CallStart e1 m rnd \<longrightarrow> m = n"
  shows "e2_inv n w'"
  using assms
proof (induction calls arbitrary: w)
  case Nil
  then show ?case by simp
next
  case (Cons c calls)
  from Cons.prems(2) obtain w1 where c: "apply_call w c = Inr w1"
    and rest: "run_calls w1 calls = Inr w'"
    by (auto split: sum.splits)
  from Cons.prems(1) c Cons.prems(3) have "e2_inv n w1"
    by (intro apply_call_e2_inv [of n w c w1]) auto
  from Cons.IH [OF this rest] Cons.prems(3) show ?case by simp
qed

lemma NewWorker_e2_inv: "e2_inv n (NewWorker i name p)"
  by (simp add: e2_inv_def NewWorker_def)

lemma run_calls_snoc:
  "run_calls w (cs @ [c]) = (case run_calls w cs of Inl f \<Rightarrow> Inl f | Inr w' \<Rightarrow> apply_call w' c)"
  by (induction cs arbitrary: w) (auto split: sum.splits)

text \<open>
  C9 (extranonce2 length). Take any run of a new worker (calls of its methods and
  iterations of its mining loop, in any order) in which every \<open>Start\<close> asks for \<open>n\<close>
  bytes of extranonce2. Then the extranonce2 of every share reported has exactly
  \<open>2 * n\<close> hexadecimal digits, and so has the worker's current extranonce2 once it has
  been started: the value regenerated for each new job has the length of the one before.
\<close>

theorem share_extranonce2_length:
  assumes "run_calls (NewWorker i name p) calls = Inr w"
    and "\<forall>c \<in> set calls. \<forall>e1 m rnd. c = CallStart e1 m rnd \<longrightarrow> m = n"
  shows "(\<forall>s \<in> set (shares w). length (share_extranonce2 s) = 2 * nat n) \<and>
         (0 < goroutines w \<or> running w \<longrightarrow> length (extranonce2 w) = 2 * nat n)"
proof -
  have "e2_inv n w"
    using NewWorker_e2_inv assms by (rule run_calls_e2_inv)
  then show ?thesis
    by (auto simp: e2_inv_def list_all_iff)
qed

lemma example_session_share:
  "\<exists>d. run_calls (NewWorker 1 ''Worker A'' 100) example_calls =
     Inr (example_worker\<lparr>hashCount := 1,
            shares := [\<lparr>share_workerID = 1, share_jobID = ''1'',
                        share_extranonce2 = ''00000000'', share_ntime = ''665f1a2b'',
                        share_nonce = ''00000000'', share_difficulty = d\<rparr>]\<rparr>)"
proof -
  from example_worker_batch [of PickJob "\<lambda>_. 0"] obtain d where
    step: "mineLoop_iter PickJob (\<lambda>_. 0) (\<lambda>_. 0) example_worker =
     Inr (Batch (True, ''00000000'', d),
          example_worker\<lparr>hashCount := 1,
            shares := [\<lparr>share_workerID = 1, share_jobID = ''1'',
                        share_extranonce2 = ''00000000'', share_ntime = ''665f1a2b'',
                        share_nonce = ''00000000'', share_difficulty = d\<rparr>]\<rparr>)"
    by blast
  have g: "goroutines example_worker \<noteq> 0"
    by (simp add: example_worker_def NewWorker_def)
  have "run_calls (NewWorker 1 ''Worker A'' 100) example_calls =
      run_calls (NewWorker 1 ''Worker A'' 100)
        ([CallSetShareCallback True, CallStart ''a1b2c3d4'' 4 (\<lambda>_. 0),
          CallUpdateJob (example_job ''1'' ''21ffffff''),
          LoopIteration PickJob (\<lambda>_. 0) (\<lambda>_. 0)] @
         [LoopIteration PickJob (\<lambda>_. 0) (\<lambda>_. 0)])"
    by (simp add: example_calls_def)
  also have "\<dots> = apply_call example_worker (LoopIteration PickJob (\<lambda>_. 0) (\<lambda>_. 0))"
    by (simp only: run_calls_snoc example_worker_reachable sum.case)
  finally have "run_calls (NewWorker 1 ''Worker A'' 100) example_calls =
     Inr (example_worker\<lparr>hashCount := 1,
            shares := [\<lparr>share_workerID = 1, share_jobID = ''1'',
                        share_extranonce2 = ''00000000'', share_ntime = ''665f1a2b'',
                        share_nonce = ''00000000'', share_difficulty = d\<rparr>]\<rparr>)"
    using step g by simp
  then show ?thesis by (rule exI)
qed

theorem share_extranonce2_length_witness:
  "\<exists>w. run_calls (NewWorker 1 ''Worker A'' 100) example_calls = Inr w \<and>
        list_all (\<lambda>c. \<forall>e1 m rnd. c = CallStart e1 m rnd \<longrightarrow> m = 4) example_calls \<and>
        shares w \<noteq> [] \<and> running w \<and>
        list_all (\<lambda>s. length (share_extranonce2 s) = 8) (shares w) \<and>
        length (extranonce2 w) = 8"
proof -
  from example_session_share obtain d where
    run: "run_calls (NewWorker 1 ''Worker A'' 100) example_calls =
     Inr (example_worker\<lparr>hashCount := 1,
            shares := [\<lparr>share_workerID = 1, share_jobID = ''1'',
                        share_extranonce2 = ''00000000'', share_ntime = ''665f1a2b'',
                        share_nonce = ''00000000'', share_difficulty = d\<rparr>]\<rparr>)"
    by blast
  have starts: "\<forall>c \<in> set example_calls. \<forall>e1 m rnd. c = CallStart e1 m rnd \<longrightarrow> m = 4"
    by (simp add: example_calls_def)
  note T = share_extranonce2_length [OF run starts]
  have r: "running (example_worker\<lparr>hashCount := 1,
            shares := [\<lparr>share_workerID = 1, share_jobID = ''1'',
                        share_extranonce2 = ''00000000'', share_ntime = ''665f1a2b'',
                        share_nonce = ''00000000'', share_difficulty = d\<rparr>]\<rparr>)"
    by (simp add: example_worker_def)
  from T r run starts show ?thesis
    by (auto simp: list_all_iff)
qed

subsection \<open>Starting and stopping a worker\<close>

lemma Start_running: "Start w e1 n rnd = Inr w' \<Longrightarrow> running w'"
  by (auto simp: Start_def split: if_splits sum.splits)

lemma Start_idempotent: "running w \<Longrightarrow> Start w e1 n rnd = Inr w"
  by (simp add: Start_def)

lemma Start_spawns:
  "\<not> running w \<Longrightarrow> Start w e1 n rnd = Inr w' \<Longrightarrow> goroutines w' = Suc (goroutines w)"
  by (auto simp: Start_def split: sum.splits)

lemma Stop_idempotent: "Stop w = Inr w' \<Longrightarrow> Stop w' = Inr w'"
  by (auto simp: Stop_def split: if_splits)

text \<open>
  On a worker that has never been stopped the loop does mine: with the mailbox empty and
  a job at hand, an iteration runs a batch of at least one hash (unless the job's bits
  make \<open>calculateTarget\<close> panic).
\<close>

lemma mineBatch_loop_hashes:
  "mineBatch_loop header target nonces best hashes = (res, n) \<Longrightarrow>
   nonces \<noteq> [] \<Longrightarrow> hashes < n \<and> n \<le> hashes + length nonces"
proof (induction nonces arbitrary: best hashes)
  case Nil
  then show ?case by simp
next
  case (Cons nonce rest)
  show ?case
  proof (cases rest)
    case Nil
    with Cons.prems show ?thesis by (auto simp: Let_def split: if_splits)
  next
    case (Cons a list)
    with Cons.prems Cons.IH show ?thesis
      by (fastforce simp: Let_def split: if_splits)
  qed
qed

lemma first_run_mines:
  assumes "\<not> shutdown_closed w" and "buf (jobChannel w) = []" and "job w = Some j"
    and "mineLoop_iter pick rb rn w = Inr (r, w')"
  shows "\<exists>res n. r = Batch res \<and> 0 < n \<and> n \<le> 1000 \<and> hashCount w' = hashCount w + word_of_nat n"
proof -
  from assms obtain res n where
    b: "mineBatch j (extranonce1 w) (extranonce2 w) 1000 rn = Inr (res, n)"
    and r: "r = Batch res" and h: "hashCount w' = hashCount w + word_of_nat n"
    by (auto simp: mineLoop_iter_def try_recv_def split: sum.splits prod.splits)
  from b obtain T where
    "mineBatch_loop (buildHeader j (extranonce1 w) (extranonce2 w)) T (map rn [0..<1000]) (0, '''') 0
       = (res, n)"
    by (auto simp: mineBatch_def split: sum.splits)
  from mineBatch_loop_hashes [OF this] have "0 < n \<and> n \<le> 1000" by simp
  with r h show ?thesis by blast
qed

text \<open>
  Once \<open>shutdown\<close> is closed nothing opens it again, and no iteration of the loop reaches
  the \<open>default\<close> branch: it returns, or at most takes a job from the mailbox first.
\<close>

lemma closed_shutdown_iteration:
  assumes "shutdown_closed w" and "mineLoop_iter pick rb rn w = Inr (r, w')"
  shows "(r = Exited \<or> r = NewJob) \<and> shutdown_closed w' \<and> hashCount w' = hashCount w \<and>
         shares w' = shares w"
  using assms
  by (auto simp: mineLoop_iter_def try_recv_def split: if_splits list.splits sum.splits)

lemma closed_shutdown_call:
  assumes "shutdown_closed w" and "apply_call w c = Inr w'"
  shows "shutdown_closed w' \<and> hashCount w' = hashCount w \<and> shares w' = shares w"
proof (cases c)
  case (LoopIteration pick rb rn)
  with assms closed_shutdown_iteration [OF assms(1)] show ?thesis
    by (auto split: if_splits sum.splits)
qed (use assms in \<open>auto simp: Start_def Stop_def UpdateJob_def SetCPUPercent_def
      SetShareCallback_def split: if_splits sum.splits option.splits\<close>)

lemma closed_shutdown_run:
  assumes "shutdown_closed w" and "run_calls w calls = Inr w'"
  shows "shutdown_closed w' \<and> hashCount w' = hashCount w \<and> shares w' = shares w"
  using assms
proof (induction calls arbitrary: w)
  case Nil
  then show ?case by simp
next
  case (Cons c calls)
  from Cons.prems(2) obtain w1 where c: "apply_call w c = Inr w1"
    and rest: "run_calls w1 calls = Inr w'"
    by (auto split: sum.splits)
  from closed_shutdown_call [OF Cons.prems(1) c] Cons.IH [OF _ rest] show ?case by simp
qed

lemma run_calls_append:
  "run_calls w (cs @ ds) = (case run_calls w cs of Inl f \<Rightarrow> Inl f | Inr w' \<Rightarrow> run_calls w' ds)"
  by (induction cs arbitrary: w) (auto split: sum.splits)

lemma Stop_closes: "running w \<Longrightarrow> Stop w = Inr w' \<Longrightarrow> shutdown_closed w' \<and> \<not> running w'"
  by (auto simp: Stop_def split: if_splits)

lemma Stop_after_restart_panics:
  "shutdown_closed w \<Longrightarrow> running w \<Longrightarrow> Stop w = Inl CloseOfClosedChannel"
  by (simp add: Stop_def)

text \<open>
  C4 (start, stop and start again). A worker is started, given a job, takes it and mines
  a batch (one hash, which meets the target); it is stopped, its loop returns, and it is
  started again. It is then marked as running and a new loop goroutine exists, but
  \<open>shutdown\<close> is still closed: whatever the runtime picks, the new loop returns at its
  first \<open>select\<close> without hashing, which leaves a running worker with no goroutine, and
  the next \<open>Stop\<close> panics on closing the closed channel.
\<close>

theorem restart_does_not_mine:
  "\<exists>w. run_calls (NewWorker 1 ''Worker A'' 100)
          (example_calls @
           [CallStop, LoopIteration PickJob (\<lambda>_. 0) (\<lambda>_. 0), CallStart ''a1b2c3d4'' 4 (\<lambda>_. 0)])
        = Inr w \<and>
      running w \<and> goroutines w = 1 \<and> hashCount w = 1 \<and> job w \<noteq> None \<and>
      buf (jobChannel w) = [] \<and> shutdown_closed w \<and>
      (\<forall>pick rb rn. mineLoop_iter pick rb rn w = Inr (Exited, w\<lparr>goroutines := 0\<rparr>)) \<and>
      Stop w = Inl CloseOfClosedChannel"
proof -
  from example_session_share obtain d where
    run: "run_calls (NewWorker 1 ''Worker A'' 100) example_calls =
     Inr (example_worker\<lparr>hashCount := 1,
            shares := [\<lparr>share_workerID = 1, share_jobID = ''1'',
                        share_extranonce2 = ''00000000'', share_ntime = ''665f1a2b'',
                        share_nonce = ''00000000'', share_difficulty = d\<rparr>]\<rparr>)"
    by blast
  let ?w5 = "example_worker\<lparr>hashCount := 1,
            shares := [\<lparr>share_workerID = 1, share_jobID = ''1'',
                        share_extranonce2 = ''00000000'', share_ntime = ''665f1a2b'',
                        share_nonce = ''00000000'', share_difficulty = d\<rparr>]\<rparr>"
  let ?w8 = "?w5\<lparr>shutdown_closed := True\<rparr>"
  have rest: "run_calls ?w5
      [CallStop, LoopIteration PickJob (\<lambda>_. 0) (\<lambda>_. 0), CallStart ''a1b2c3d4'' 4 (\<lambda>_. 0)]
      = Inr ?w8"
    by (simp add: example_worker_def NewWorker_def Stop_def Start_def mineLoop_iter_def
        generateExtranonce2_zero_4)
  have all: "run_calls (NewWorker 1 ''Worker A'' 100)
          (example_calls @
           [CallStop, LoopIteration PickJob (\<lambda>_. 0) (\<lambda>_. 0), CallStart ''a1b2c3d4'' 4 (\<lambda>_. 0)])
        = Inr ?w8"
    using run rest by (simp add: run_calls_append)
  have props: "running ?w8 \<and> goroutines ?w8 = 1 \<and> hashCount ?w8 = 1 \<and> job ?w8 \<noteq> None \<and>
      buf (jobChannel ?w8) = [] \<and> shutdown_closed ?w8 \<and>
      (\<forall>pick rb rn. mineLoop_iter pick rb rn ?w8 = Inr (Exited, ?w8\<lparr>goroutines := 0\<rparr>)) \<and>
      Stop ?w8 = Inl CloseOfClosedChannel"
    by (simp add: example_worker_def NewWorker_def Stop_def mineLoop_iter_def)
  from all props show ?thesis by blast
qed

subsection \<open>Rounding to a float\<close>

lemma bitlen_upper: "m < 2 ^ bitlen m"
proof (induction m rule: bitlen.induct)
  case (1 n)
  show ?case
  proof (cases "n = 0")
    case True
    then show ?thesis by (simp add: bitlen.simps)
  next
    case False
    with 1 have "n div 2 < 2 ^ bitlen (n div 2)" by simp
    then have "n < 2 * 2 ^ bitlen (n div 2)" by linarith
    with False show ?thesis by (subst bitlen.simps) simp
  qed
qed

lemma bitlen_lower: "0 < m \<Longrightarrow> 2 ^ (bitlen m - 1) \<le> m"
proof (induction m rule: bitlen.induct)
  case (1 n)
  show ?case
  proof (cases "n div 2 = 0")
    case True
    with "1.prems" have "n = 1" by linarith
    then show ?thesis by (simp add: bitlen.simps)
  next
    case False
    with 1 have ih: "2 ^ (bitlen (n div 2) - 1) \<le> n div 2" by simp
    from False have pos: "0 < bitlen (n div 2)" by (subst bitlen.simps) simp
    have "bitlen n = Suc (bitlen (n div 2))"
      using "1.prems" by (subst bitlen.simps) simp
    then have "(2 :: nat) ^ (bitlen n - 1) = 2 * 2 ^ (bitlen (n div 2) - 1)"
      using pos by (cases "bitlen (n div 2)") simp_all
    also have "\<dots> \<le> 2 * (n div 2)" using ih by simp
    also have "\<dots> \<le> n" by simp
    finally show ?thesis .
  qed
qed

lemma bitlen_mono: "a \<le> b \<Longrightarrow> bitlen a \<le> bitlen b"
proof (rule ccontr)
  assume ab: "a \<le> b" and "\<not> bitlen a \<le> bitlen b"
  then have lt: "bitlen b < bitlen a" by simp
  then have "0 < bitlen a" by simp
  then have "0 < a" by (cases "a = 0") (simp_all add: bitlen.simps)
  then have "2 ^ (bitlen a - 1) \<le> a" by (rule bitlen_lower)
  moreover have "(2 :: nat) ^ bitlen b \<le> 2 ^ (bitlen a - 1)"
    using lt by (intro power_increasing) simp_all
  moreover have "b < 2 ^ bitlen b" by (rule bitlen_upper)
  ultimately show False using ab by linarith
qed

text \<open>Rounding stays between the two powers of two around its argument.\<close>

lemma round53_cases:
  "round53 m = (m div 2 ^ (bitlen m - 53)) * 2 ^ (bitlen m - 53) \<or>
   round53 m = (m div 2 ^ (bitlen m - 53) + 1) * 2 ^ (bitlen m - 53)"
  by (simp add: round53_def Let_def)

lemma round53_upper: "round53 m \<le> 2 ^ bitlen m"
proof -
  let ?e = "bitlen m - 53"
  have e: "?e \<le> bitlen m" by simp
  have eq: "bitlen m - ?e + ?e = bitlen m" using e by simp
  have p: "(2 :: nat) ^ (bitlen m - ?e) * 2 ^ ?e = 2 ^ bitlen m"
    by (simp only: eq flip: power_add)
  have "m < 2 ^ (bitlen m - ?e) * 2 ^ ?e"
    using bitlen_upper [of m] by (simp only: p)
  then have "m div 2 ^ ?e < 2 ^ (bitlen m - ?e)"
    by (simp add: less_mult_imp_div_less)
  then have "m div 2 ^ ?e + 1 \<le> 2 ^ (bitlen m - ?e)" by simp
  then have "(m div 2 ^ ?e + 1) * 2 ^ ?e \<le> 2 ^ (bitlen m - ?e) * 2 ^ ?e"
    by (rule mult_le_mono1)
  also have "\<dots> = 2 ^ bitlen m" by (rule p)
  finally have up: "(m div 2 ^ ?e + 1) * 2 ^ ?e \<le> 2 ^ bitlen m" .
  have "m div 2 ^ ?e * 2 ^ ?e \<le> (m div 2 ^ ?e + 1) * 2 ^ ?e" by simp
  with up round53_cases [of m] show ?thesis by auto
qed

lemma round53_lower: "0 < m \<Longrightarrow> 2 ^ (bitlen m - 1) \<le> round53 m"
proof -
  assume pos: "0 < m"
  let ?e = "bitlen m - 53"
  from pos have "0 < bitlen m" by (subst bitlen.simps) simp
  then have e: "?e \<le> bitlen m - 1" by simp
  have eq: "bitlen m - 1 - ?e + ?e = bitlen m - 1" using e by simp
  have p: "(2 :: nat) ^ (bitlen m - 1 - ?e) * 2 ^ ?e = 2 ^ (bitlen m - 1)"
    by (simp only: eq flip: power_add)
  have "2 ^ (bitlen m - 1 - ?e) * 2 ^ ?e \<le> m"
    using bitlen_lower [OF pos] by (simp only: p)
  then have "2 ^ (bitlen m - 1 - ?e) \<le> m div 2 ^ ?e"
    by (simp add: less_eq_div_iff_mult_less_eq)
  then have "2 ^ (bitlen m - 1 - ?e) * 2 ^ ?e \<le> m div 2 ^ ?e * 2 ^ ?e"
    by (rule mult_le_mono1)
  then have low: "2 ^ (bitlen m - 1) \<le> m div 2 ^ ?e * 2 ^ ?e"
    by (simp only: p)
  have "m div 2 ^ ?e * 2 ^ ?e \<le> (m div 2 ^ ?e + 1) * 2 ^ ?e" by simp
  with low round53_cases [of m] show ?thesis by auto
qed

lemma round53_mono:
  assumes "a \<le> b"
  shows "round53 a \<le> round53 b"
proof (cases "bitlen a = bitlen b")
  case False
  with bitlen_mono [OF assms] have lt: "bitlen a < bitlen b" by simp
  then have "0 < bitlen b" by simp
  then have "0 < b" by (cases "b = 0") (simp_all add: bitlen.simps)
  have "round53 a \<le> 2 ^ bitlen a" by (rule round53_upper)
  also have "(2 :: nat) ^ bitlen a \<le> 2 ^ (bitlen b - 1)"
    using lt by (intro power_increasing) simp_all
  also have "\<dots> \<le> round53 b" using \<open>0 < b\<close> by (rule round53_lower)
  finally show ?thesis .
next
  case True
  let ?e = "bitlen b - 53"
  let ?qa = "a div 2 ^ ?e" and ?qb = "b div 2 ^ ?e"
  let ?ra = "a mod 2 ^ ?e" and ?rb = "b mod 2 ^ ?e"
  have q: "?qa \<le> ?qb" using assms by (rule div_le_mono)
  show ?thesis
  proof (cases "?qa = ?qb")
    case False
    with q have "?qa + 1 \<le> ?qb" by simp
    then have "(?qa + 1) * 2 ^ ?e \<le> ?qb * 2 ^ ?e" by (rule mult_le_mono1)
    moreover have "?qb * 2 ^ ?e \<le> round53 b"
      using round53_cases [of b] by auto
    moreover have "round53 a \<le> (?qa + 1) * 2 ^ ?e"
      using round53_cases [of a] True by auto
    ultimately show ?thesis by linarith
  next
    case same: True
    have "?qa * 2 ^ ?e + ?ra = a" "?qb * 2 ^ ?e + ?rb = b"
      by (rule div_mult_mod_eq)+
    with assms same have r: "?ra \<le> ?rb"
      by (metis add_le_cancel_left)
    show ?thesis
      using r same True by (auto simp: round53_def Let_def)
  qed
qed

lemma round53_small: "m < 2 ^ 53 \<Longrightarrow> round53 m = m"
  using bitlen_le [of m 53] by (simp add: round53_def)

lemma Int64_small: "q < 2 ^ 63 \<Longrightarrow> Int64 q = int q"
proof -
  assume "q < 2 ^ 63"
  then have "int q < 2 ^ 63" by (metis of_nat_less_iff of_nat_numeral of_nat_power)
  then have "signed_take_bit 63 (int q) = int q"
    by (intro signed_take_bit_int_eq_self) simp_all
  then show ?thesis
    by (simp add: Int64_def signed_of_nat)
qed

lemma round53_0 [simp]: "round53 0 = 0"
  by (simp add: round53_def)

lemma float64_of_int64_nat: "float64_of_int64 (int m) = of_nat (round53 m)"
  by (cases "m = 0") (simp_all add: float64_of_int64_def)

lemma float64_of_int64_mono_nat:
  "a \<le> b \<Longrightarrow> float64_of_int64 (int a) \<le> float64_of_int64 (int b)"
  by (simp add: float64_of_int64_nat round53_mono)

lemma float64_of_int64_nonneg: "0 \<le> float64_of_int64 (int m)"
  by (simp add: float64_of_int64_nat)

text \<open>
  While the quotient stays below \<open>2 ^ 63\<close> the code does report the difficulty of the
  winning hash: every nonce tried before it in the batch missed the target, so its hash
  is greater and its difficulty no greater than the winner's.
\<close>

lemma trackBest_loser:
  assumes "fst best \<le> float64_of_int64 (int (difficulty1Target div H))"
    and "0 < H" and "H < h" and "difficulty1Target div H < 2 ^ 63"
  shows "fst (trackBest h nonce best) \<le> float64_of_int64 (int (difficulty1Target div H))"
proof -
  have le: "difficulty1Target div h \<le> difficulty1Target div H"
    using assms(2,3) by (intro div_le_mono2) simp_all
  with assms(4) have "difficulty1Target div h < 2 ^ 63" by simp
  then have "Int64 (difficulty1Target div h) = int (difficulty1Target div h)"
    by (rule Int64_small)
  with le assms(1) float64_of_int64_mono_nat [OF le] show ?thesis
    by (simp add: trackBest_def Let_def)
qed

lemma trackBest_winner:
  assumes "fst best \<le> float64_of_int64 (int (difficulty1Target div H))"
    and "0 < H" and "difficulty1Target div H < 2 ^ 63"
  shows "fst (trackBest H nonce best) = float64_of_int64 (int (difficulty1Target div H))"
  using assms by (auto simp: trackBest_def Let_def Int64_small)

lemma mineBatch_loop_difficulty:
  assumes "mineBatch_loop header target nonces best hashes = ((True, nonceHex, d), n)"
    and "\<forall>H. 0 < H \<and> H \<le> target \<and> difficulty1Target div H < 2 ^ 63 \<longrightarrow>
           fst best \<le> float64_of_int64 (int (difficulty1Target div H))"
  shows "\<exists>i < length nonces. nonceHex = Sprintf_08x (nonces ! i) \<and>
           hashInt (PutUint32 header 76 (nonces ! i)) \<le> target \<and>
           (0 < hashInt (PutUint32 header 76 (nonces ! i)) \<and>
            difficulty1Target div hashInt (PutUint32 header 76 (nonces ! i)) < 2 ^ 63 \<longrightarrow>
            d = float64_of_int64
                  (int (difficulty1Target div hashInt (PutUint32 header 76 (nonces ! i)))))"
  using assms
proof (induction nonces arbitrary: best hashes)
  case Nil
  then show ?case by simp
next
  case (Cons nonce rest)
  let ?h = "hashInt (PutUint32 header 76 nonce)"
  show ?case
  proof (cases "?h \<le> target")
    case True
    with Cons.prems(1) have res: "nonceHex = Sprintf_08x nonce" "d = fst (trackBest ?h nonce best)"
      by (simp_all add: Let_def)
    have "0 < ?h \<and> difficulty1Target div ?h < 2 ^ 63 \<longrightarrow>
          d = float64_of_int64 (int (difficulty1Target div ?h))"
      using Cons.prems(2) True res(2) by (auto intro!: trackBest_winner)
    with True res(1) show ?thesis by auto
  next
    case False
    with Cons.prems(1) have
      rec: "mineBatch_loop header target rest (trackBest ?h nonce best) (Suc hashes)
              = ((True, nonceHex, d), n)"
      by (simp add: Let_def)
    have "\<forall>H. 0 < H \<and> H \<le> target \<and> difficulty1Target div H < 2 ^ 63 \<longrightarrow>
           fst (trackBest ?h nonce best) \<le> float64_of_int64 (int (difficulty1Target div H))"
      using Cons.prems(2) False by (auto intro!: trackBest_loser)
    from Cons.IH [OF rec this] show ?thesis by auto
  qed
qed

lemma share_difficulty_in_range:
  assumes "mineBatch j e1 e2 batchSize rnd = Inr ((True, nonceHex, d), n)"
  shows "\<exists>T i. calculateTarget (NBits j) = Inr T \<and> i < nat batchSize \<and>
           nonceHex = Sprintf_08x (rnd i) \<and>
           hashInt (PutUint32 (buildHeader j e1 e2) 76 (rnd i)) \<le> T \<and>
           (0 < hashInt (PutUint32 (buildHeader j e1 e2) 76 (rnd i)) \<and>
            difficulty1Target div hashInt (PutUint32 (buildHeader j e1 e2) 76 (rnd i)) < 2 ^ 63 \<longrightarrow>
            d = float64_of_int64
                  (int (difficulty1Target div
                          hashInt (PutUint32 (buildHeader j e1 e2) 76 (rnd i)))))"
proof -
  from assms obtain T where T: "calculateTarget (NBits j) = Inr T"
    and loop: "mineBatch_loop (buildHeader j e1 e2) T (map rnd [0..<nat batchSize]) (0, '''') 0
                 = ((True, nonceHex, d), n)"
    by (auto simp: mineBatch_def split: sum.splits)
  have "\<forall>H. 0 < H \<and> H \<le> T \<and> difficulty1Target div H < 2 ^ 63 \<longrightarrow>
           fst ((0 :: float64), '''') \<le> float64_of_int64 (int (difficulty1Target div H))"
    by (simp add: float64_of_int64_nonneg)
  from mineBatch_loop_difficulty [OF loop this] T show ?thesis by auto
qed

subsection \<open>The reported difficulty\<close>

text \<open>The conversion \<open>float64(i)\<close> on some values around the 53-bit limit.\<close>

lemma float64_of_int64_examples:
  "float64_of_int64 0 = 0"
  "float64_of_int64 65535 = 65535"
  "float64_of_int64 (2 ^ 53 + 1) = 2 ^ 53"
  "float64_of_int64 (2 ^ 53 + 3) = 2 ^ 53 + 4"
  "float64_of_int64 (2 ^ 63 - 1) = 2 ^ 63"
  "float64_of_int64 (- (2 ^ 48)) = - (2 ^ 48)"
  unfolding float64_of_int64_def round53_def Let_def by (simp_all add: bitlen.simps)

lemma trackBest_hash_1: "trackBest 1 nonce (0, '''') = (0, '''')"
  unfolding trackBest_def Let_def float64_of_int64_def round53_def
  by (simp add: difficulty1Target_def Int64_def bitlen.simps)

lemma trackBest_hash_2_160: "trackBest (2 ^ 160) nonce (0, '''') = (0, '''')"
  unfolding trackBest_def Let_def float64_of_int64_def round53_def
  by (simp add: difficulty1Target_def Int64_def bitlen.simps)

lemma trackBest_hash_0: "trackBest 0 nonce best = best"
  by (simp add: trackBest_def)

text \<open>
  C1 (reported difficulty). While the quotient \<open>difficulty1Target / hashInt\<close> of the
  winning hash is below \<open>2 ^ 63\<close> and the hash is not 0, the share reports that quotient
  as a \<open>float64\<close> (\<open>share_difficulty_in_range\<close>). But the quotient is converted with
  \<open>Int64()\<close>, which keeps its low 64 bits. For the hash 1 the quotient is the whole
  difficulty-1 target, whose low 64 bits are zero, and for the hash \<open>2 ^ 160\<close> it is
  \<open>0xFFFF * 2 ^ 48\<close>, which reads as \<open>- (2 ^ 48)\<close>: in both cases the difficulty kept
  after that hash is still 0, and a batch that ends with it (the hash is below any target
  above it) reports 0. For the hash 0 the difficulty reported is the best one seen earlier
  in the batch, here 1, not 0.
\<close>

theorem difficulty_lost_in_Int64:
  "difficulty1Target div 1 = 0xFFFF * 2 ^ 208 \<and>
   Int64 (difficulty1Target div 1) = 0 \<and>
   trackBest 1 0 (0, '''') = (0, '''') \<and>
   difficulty1Target div 2 ^ 160 = 0xFFFF * 2 ^ 48 \<and>
   Int64 (difficulty1Target div 2 ^ 160) = - (2 ^ 48) \<and>
   trackBest (2 ^ 160) 0 (0, '''') = (0, '''') \<and>
   trackBest 0 0 (1, ''0000002a'') = (1, ''0000002a'')"
proof -
  have "difficulty1Target div 1 = 0xFFFF * 2 ^ 208"
    by (simp add: difficulty1Target_def)
  moreover have "Int64 (difficulty1Target div 1) = 0"
    by (simp add: Int64_def difficulty1Target_def)
  moreover have "difficulty1Target div 2 ^ 160 = 0xFFFF * 2 ^ 48"
    by (simp add: difficulty1Target_def)
  moreover have "Int64 (difficulty1Target div 2 ^ 160) = - (2 ^ 48)"
    by (simp add: Int64_def difficulty1Target_def)
  ultimately show ?thesis
    using trackBest_hash_1 [of 0] trackBest_hash_2_160 [of 0]
      trackBest_hash_0 [of 0 "(1, ''0000002a'')"]
    by (simp only: simp_thms)
qed

end
